theory Spec2Isabelle
  imports Main "HOL-Library.AList" "HOL-Library.Multiset"
begin

section \<open>Primitive options of featuretools: data model\<close>

text \<open>
  The development embeds \<^verbatim>\<open>featuretools/primitives/options_utils.py\<close>.
  Entity and variable identifiers are strings. A Python \<^verbatim>\<open>dict\<close> is an
  association list in insertion order: \<open>map_of\<close> is the lookup, \<open>AList.update\<close>
  is item assignment (it replaces the value of a key that is present where it stands and
  appends a new key at the end, as a Python dict does). A Python \<^verbatim>\<open>set\<close> is
  a HOL set: the code only ever builds new sets (\<^verbatim>\<open>set(...)\<close>,
  \<^verbatim>\<open>union\<close>, \<^verbatim>\<open>difference\<close>) and never adds to or removes
  from one in place.
\<close>

type_synonym entity_id = string
type_synonym variable_id = string
type_synonym var_dict = "(entity_id \<times> variable_id set) list"

text \<open>
  The exceptions the module can raise. The first four are the fatal errors of option
  table construction: the \<^verbatim>\<open>KeyError\<close> "Unrecognized primitive option"
  (with the option key and the primitive key), the \<^verbatim>\<open>TypeError\<close>
  "Incorrect type formatting", the failed assertion "Number of options does not match
  number of inputs" and the \<^verbatim>\<open>KeyError\<close> "Multiple options found for
  primitive". The others are what Python itself raises: subscripting a dict with a key
  it lacks, subscripting an empty list, reading an attribute of \<^verbatim>\<open>None\<close>,
  and a dict changing size while it is iterated.
\<close>

datatype primitive_key = Name string | Names "string list"

datatype error =
    UnrecognizedOption string primitive_key
  | IncorrectTypeFormatting string primitive_key
  | NumberOfOptionsMismatch primitive_key
  | MultipleOptionsFound string
  | KeyError string
  | IndexError
  | AttributeError
  | RuntimeError

text \<open>
  A feature exposes whether it is an \<^verbatim>\<open>IdentityFeature\<close>, the id of its
  entity and, for an identity feature, the id of its variable. The code reads
  \<^verbatim>\<open>f.variable.id\<close> only behind an \<^verbatim>\<open>isinstance\<close> test.
\<close>

datatype feature =
    IdentityFeature entity_id variable_id
  | OtherFeature entity_id

fun is_identity :: "feature \<Rightarrow> bool" where
  "is_identity (IdentityFeature e v) = True"
| "is_identity (OtherFeature e) = False"

fun feature_entity :: "feature \<Rightarrow> entity_id" where
  "feature_entity (IdentityFeature e v) = e"
| "feature_entity (OtherFeature e) = e"

text \<open>
  An option dict after normalisation. Each of the eight keys may be absent (\<open>None\<close>).
  The value under an entity key is a set of entity ids, the value under a variable key a
  dict from entity id to a set of variable ids. The type parameter is the representation
  of the \<^verbatim>\<open>'ignore_variables'\<close> value: the dict itself (\<open>var_dict\<close>) where
  the option dict is only read, an address in the store where the reconciler mutates it.
\<close>

record 'v option_dict =
  ignore_entities :: "entity_id set option"
  include_entities :: "entity_id set option"
  ignore_variables :: "'v option"
  include_variables :: "var_dict option"
  ignore_groupby_entities :: "entity_id set option"
  include_groupby_entities :: "entity_id set option"
  ignore_groupby_variables :: "var_dict option"
  include_groupby_variables :: "var_dict option"

definition empty_option_dict :: "'v option_dict" where
  "empty_option_dict =
     \<lparr>ignore_entities = None, include_entities = None,
      ignore_variables = None, include_variables = None,
      ignore_groupby_entities = None, include_groupby_entities = None,
      ignore_groupby_variables = None, include_groupby_variables = None\<rparr>"

text \<open>\<^verbatim>\<open>e in d\<close> for a dict \<open>d\<close>, and \<^verbatim>\<open>e in d and v in d[e]\<close>.\<close>

definition has_key :: "var_dict \<Rightarrow> entity_id \<Rightarrow> bool" where
  "has_key d e = (case map_of d e of None \<Rightarrow> False | Some vs \<Rightarrow> True)"

definition lists_variable :: "var_dict \<Rightarrow> entity_id \<Rightarrow> variable_id \<Rightarrow> bool" where
  "lists_variable d e v = (case map_of d e of None \<Rightarrow> False | Some vs \<Rightarrow> v \<in> vs)"

section \<open>Match filter\<close>

subsection \<open>Direct inputs: \<^verbatim>\<open>_variable_filter_generator\<close>\<close>

text \<open>
  \<^verbatim>\<open>options['ignore_variables']\<close> is a subscript: it raises
  \<^verbatim>\<open>KeyError\<close> when the key is absent. It is evaluated only for an identity
  feature (the \<^verbatim>\<open>or\<close> short-circuits).
\<close>

definition passes_ignore_filter :: "var_dict option_dict \<Rightarrow> feature \<Rightarrow> error + bool" where
  "passes_ignore_filter options f =
     (case f of
        OtherFeature e \<Rightarrow> Inr True
      | IdentityFeature e v \<Rightarrow>
          (case ignore_variables options of
             None \<Rightarrow> Inl (KeyError ''ignore_variables'')
           | Some ign \<Rightarrow> Inr (\<not> has_key ign e \<or> \<not> lists_variable ign e v)))"

text \<open>Called only when \<^verbatim>\<open>'include_variables'\<close> is present; \<open>inc\<close> is its value.\<close>

definition passes_include_filter :: "var_dict \<Rightarrow> feature \<Rightarrow> bool" where
  "passes_include_filter inc f =
     (case f of
        OtherFeature e \<Rightarrow> True
      | IdentityFeature e v \<Rightarrow> has_key inc e \<and> lists_variable inc e v)"

definition variable_filter_generator :: "var_dict option_dict \<Rightarrow> feature \<Rightarrow> error + bool" where
  "variable_filter_generator options f =
     (case include_variables options of
        Some inc \<Rightarrow>
          (if passes_include_filter inc f then Inr True
           else if \<not> has_key inc (feature_entity f) then passes_ignore_filter options f
           else Inr False)
      | None \<Rightarrow> passes_ignore_filter options f)"

subsection \<open>Groupby keys: \<^verbatim>\<open>_groupby_filter_generator\<close>\<close>

text \<open>
  Every subscript of the groupby filter stands in a branch chosen by the presence of its
  key, so the filter raises nothing.
\<close>

definition passes_include_groupby_filter :: "var_dict \<Rightarrow> feature \<Rightarrow> bool" where
  "passes_include_groupby_filter inc f =
     (case f of
        OtherFeature e \<Rightarrow> False
      | IdentityFeature e v \<Rightarrow> has_key inc e \<and> lists_variable inc e v)"

definition passes_ignore_groupby_filter :: "var_dict \<Rightarrow> feature \<Rightarrow> bool" where
  "passes_ignore_groupby_filter ign f =
     (case f of
        OtherFeature e \<Rightarrow> False
      | IdentityFeature e v \<Rightarrow>
          \<not> has_key ign e \<or> (has_key ign e \<and> \<not> lists_variable ign e v))"

definition groupby_filter_generator :: "'v option_dict \<Rightarrow> feature \<Rightarrow> bool" where
  "groupby_filter_generator options f =
     (case (include_groupby_variables options, ignore_groupby_variables options) of
        (Some inc, Some ign) \<Rightarrow>
          passes_include_groupby_filter inc f \<or>
          (\<not> has_key inc (feature_entity f) \<and> passes_ignore_groupby_filter ign f)
      | (Some inc, None) \<Rightarrow>
          passes_include_groupby_filter inc f \<or> \<not> has_key inc (feature_entity f)
      | (None, Some ign) \<Rightarrow> passes_ignore_groupby_filter ign f
      | (None, None) \<Rightarrow> is_identity f)"

subsection \<open>Entity-level filter: \<^verbatim>\<open>ignore_entity_for_primitive\<close>\<close>

text \<open>
  \<^verbatim>\<open>option['ignore_entities']\<close> is a subscript and raises when the key is
  absent; it is reached only when the first condition is false. The results are
  collected in a list before \<^verbatim>\<open>any\<close> reads it, so an exception in any
  element wins over a \<^verbatim>\<open>True\<close> before it.
\<close>

definition mem_opt :: "entity_id \<Rightarrow> entity_id set option \<Rightarrow> bool" where
  "mem_opt e S = (case S of None \<Rightarrow> False | Some A \<Rightarrow> e \<in> A)"

definition absent_from :: "entity_id \<Rightarrow> entity_id set option \<Rightarrow> bool" where
  "absent_from e S = (case S of None \<Rightarrow> False | Some A \<Rightarrow> e \<notin> A)"

definition should_ignore_entity :: "entity_id \<Rightarrow> bool \<Rightarrow> 'v option_dict \<Rightarrow> error + bool" where
  "should_ignore_entity e groupby opt =
     (if absent_from e (include_entities opt) \<or>
         (groupby \<and> absent_from e (include_groupby_entities opt))
      then Inr True
      else (case ignore_entities opt of
              None \<Rightarrow> Inl (KeyError ''ignore_entities'')
            | Some ign \<Rightarrow>
                Inr (e \<in> ign \<or> (groupby \<and> mem_opt e (ignore_groupby_entities opt)))))"

text \<open>
  A list comprehension of results: the first exception in list order is raised,
  otherwise the list of values is returned.
\<close>

fun collect :: "(error + 'a) list \<Rightarrow> error + 'a list" where
  "collect [] = Inr []"
| "collect (Inl err # rs) = Inl err"
| "collect (Inr x # rs) = (case collect rs of Inl err \<Rightarrow> Inl err | Inr xs \<Rightarrow> Inr (x # xs))"

definition py_any :: "(error + bool) list \<Rightarrow> error + bool" where
  "py_any rs = (case collect rs of Inl err \<Rightarrow> Inl err | Inr bs \<Rightarrow> Inr (list_ex (\<lambda>b. b) bs))"

definition py_all :: "(error + bool) list \<Rightarrow> error + bool" where
  "py_all rs = (case collect rs of Inl err \<Rightarrow> Inl err | Inr bs \<Rightarrow> Inr (list_all (\<lambda>b. b) bs))"

definition ignore_entity_for_primitive ::
  "'v option_dict list \<Rightarrow> entity_id \<Rightarrow> bool \<Rightarrow> error + bool" where
  "ignore_entity_for_primitive options e groupby =
     py_any (map (should_ignore_entity e groupby) options)"

subsection \<open>Whole matches: \<^verbatim>\<open>filter_matches_by_options\<close>\<close>

text \<open>
  A match is a tuple of features, here a list. With more than one option dict the
  filters are paired with the positions of the match by \<^verbatim>\<open>zip\<close>; otherwise
  \<^verbatim>\<open>options[0]\<close> is read (an \<^verbatim>\<open>IndexError\<close> on an empty list)
  and applied to every position.
\<close>

definition generator :: "bool \<Rightarrow> var_dict option_dict \<Rightarrow> feature \<Rightarrow> error + bool" where
  "generator groupby =
     (if groupby then (\<lambda>options f. Inr (groupby_filter_generator options f))
      else variable_filter_generator)"

definition is_valid_match ::
  "bool \<Rightarrow> var_dict option_dict list \<Rightarrow> feature list \<Rightarrow> error + bool" where
  "is_valid_match groupby options match =
     (if length options > 1
      then py_all (map (\<lambda>(vf, m). vf m) (zip (map (generator groupby) options) match))
      else (case options of
              [] \<Rightarrow> Inl IndexError
            | opt # rest \<Rightarrow> py_all (map (generator groupby opt) match)))"

text \<open>
  The loop over the matches, with the set of valid matches as accumulator; an exception
  in \<^verbatim>\<open>is_valid_match\<close> ends the call.
\<close>

fun valid_matches_loop ::
  "bool \<Rightarrow> var_dict option_dict list \<Rightarrow> feature list list \<Rightarrow> feature list set \<Rightarrow>
   error + feature list set" where
  "valid_matches_loop groupby options [] valid_matches = Inr valid_matches"
| "valid_matches_loop groupby options (match # matches) valid_matches =
     (case is_valid_match groupby options match of
        Inl err \<Rightarrow> Inl err
      | Inr ok \<Rightarrow>
          valid_matches_loop groupby options matches
            (if ok then insert match valid_matches else valid_matches))"

definition filter_matches_by_options ::
  "feature list list \<Rightarrow> var_dict option_dict list \<Rightarrow> bool \<Rightarrow> error + feature list set" where
  "filter_matches_by_options matches options groupby =
     valid_matches_loop groupby options matches {}"

definition filter_groupby_matches_by_options ::
  "feature list \<Rightarrow> var_dict option_dict list \<Rightarrow> error + feature list set" where
  "filter_groupby_matches_by_options groupby_matches options =
     filter_matches_by_options (map (\<lambda>groupby_match. [groupby_match]) groupby_matches)
       options True"

section \<open>Option schema registry and normaliser\<close>

text \<open>
  A raw option value as the user wrote it: a list of ids, a dict (whose values may be
  anything again), or some other Python value. The entity snapshot \<open>es\<close> is the dict
  from entity id to the list of its variable ids.
\<close>

datatype raw_value =
    RawList "string list"
  | RawDict "(string \<times> raw_value) list"
  | RawOther

type_synonym raw_option_dict = "(string \<times> raw_value) list"
type_synonym entityset_dict = "(entity_id \<times> variable_id list) list"

text \<open>What a validator emits besides its result: printed lines and warnings.\<close>

datatype event =
    Printed string
  | EntityNotInEntityset entity_id
  | VariableNotInEntity variable_id entity_id

fun is_list :: "raw_value \<Rightarrow> bool" where
  "is_list (RawList xs) = True"
| "is_list (RawDict kvs) = False"
| "is_list RawOther = False"

definition variable_warnings :: "entityset_dict \<Rightarrow> entity_id \<Rightarrow> raw_value \<Rightarrow> event list" where
  "variable_warnings es entity variables =
     (case map_of es entity of
        None \<Rightarrow> [EntityNotInEntityset entity]
      | Some known \<Rightarrow>
          (case variables of
             RawList vs \<Rightarrow>
               map (\<lambda>invalid_var. VariableNotInEntity invalid_var entity)
                 (filter (\<lambda>variable. variable \<notin> set known) vs)
           | RawDict kvs \<Rightarrow> []
           | RawOther \<Rightarrow> []))"

definition dict_to_list_variable_check :: "raw_value \<Rightarrow> entityset_dict \<Rightarrow> bool \<times> event list" where
  "dict_to_list_variable_check option es =
     (case option of
        RawDict kvs \<Rightarrow>
          (if list_all is_list (map snd kvs)
           then (True, concat (map (\<lambda>(entity, variables). variable_warnings es entity variables) kvs))
           else (False, []))
      | RawList xs \<Rightarrow> (False, [])
      | RawOther \<Rightarrow> (False, []))"

definition list_entity_check :: "raw_value \<Rightarrow> entityset_dict \<Rightarrow> bool \<times> event list" where
  "list_entity_check option es =
     (case option of
        RawList xs \<Rightarrow>
          (True, concat (map (\<lambda>invalid_entity. [Printed invalid_entity, EntityNotInEntityset invalid_entity])
                           (filter (\<lambda>entity. map_of es entity = None) xs)))
      | RawDict kvs \<Rightarrow> (False, [])
      | RawOther \<Rightarrow> (False, []))"

definition get_primitive_options ::
  "(string \<times> (raw_value \<Rightarrow> entityset_dict \<Rightarrow> bool \<times> event list)) list" where
  "get_primitive_options =
     [(''ignore_entities'', list_entity_check),
      (''include_entities'', list_entity_check),
      (''ignore_variables'', dict_to_list_variable_check),
      (''include_variables'', dict_to_list_variable_check),
      (''ignore_groupby_entities'', list_entity_check),
      (''include_groupby_entities'', list_entity_check),
      (''ignore_groupby_variables'', dict_to_list_variable_check),
      (''include_groupby_variables'', dict_to_list_variable_check)]"

text \<open>
  Assignment \<^verbatim>\<open>initialized_option_dict[option_key] = ...\<close>. A list value is
  stored as a set of entity ids, a dict value as a dict of sets. The validator of an
  entity key accepts only lists and the validator of a variable key only dicts of
  lists, so the other combinations of key and value are never stored; they leave the
  dict as it is.
\<close>

definition set_entity_option ::
  "string \<Rightarrow> entity_id set \<Rightarrow> 'v option_dict \<Rightarrow> 'v option_dict" where
  "set_entity_option option_key S d =
     (if option_key = ''ignore_entities'' then d\<lparr>ignore_entities := Some S\<rparr>
      else if option_key = ''include_entities'' then d\<lparr>include_entities := Some S\<rparr>
      else if option_key = ''ignore_groupby_entities'' then d\<lparr>ignore_groupby_entities := Some S\<rparr>
      else if option_key = ''include_groupby_entities'' then d\<lparr>include_groupby_entities := Some S\<rparr>
      else d)"

definition set_variable_option ::
  "string \<Rightarrow> var_dict \<Rightarrow> var_dict option_dict \<Rightarrow> var_dict option_dict" where
  "set_variable_option option_key vd d =
     (if option_key = ''ignore_variables'' then d\<lparr>ignore_variables := Some vd\<rparr>
      else if option_key = ''include_variables'' then d\<lparr>include_variables := Some vd\<rparr>
      else if option_key = ''ignore_groupby_variables'' then d\<lparr>ignore_groupby_variables := Some vd\<rparr>
      else if option_key = ''include_groupby_variables'' then d\<lparr>include_groupby_variables := Some vd\<rparr>
      else d)"

text \<open>
  \<^verbatim>\<open>set(option[key])\<close> inside the dict comprehension. The validator has
  accepted the dict by then, so the value is a list; the other two equations are never
  used by \<open>init_option_loop\<close>.
\<close>

fun set_of_raw :: "raw_value \<Rightarrow> string set" where
  "set_of_raw (RawList xs) = set xs"
| "set_of_raw (RawDict kvs) = set (map fst kvs)"
| "set_of_raw RawOther = {}"

definition store_option ::
  "string \<Rightarrow> raw_value \<Rightarrow> var_dict option_dict \<Rightarrow> var_dict option_dict" where
  "store_option option_key option d =
     (case option of
        RawList xs \<Rightarrow> set_entity_option option_key (set xs) d
      | RawDict kvs \<Rightarrow> set_variable_option option_key (map (\<lambda>(k, v). (k, set_of_raw v)) kvs) d
      | RawOther \<Rightarrow> d)"

fun init_option_loop ::
  "primitive_key \<Rightarrow> raw_option_dict \<Rightarrow> entityset_dict \<Rightarrow> var_dict option_dict \<Rightarrow>
   error + var_dict option_dict" where
  "init_option_loop key [] es d = Inr d"
| "init_option_loop key ((option_key, option) # rest) es d =
     (case map_of get_primitive_options option_key of
        None \<Rightarrow> Inl (UnrecognizedOption option_key key)
      | Some check \<Rightarrow>
          (if \<not> fst (check option es) then Inl (IncorrectTypeFormatting option_key key)
           else init_option_loop key rest es (store_option option_key option d)))"

definition init_defaults :: "var_dict option_dict \<Rightarrow> var_dict option_dict" where
  "init_defaults d =
     (let d1 = (if ignore_variables d = None then d\<lparr>ignore_variables := Some []\<rparr> else d)
      in (if ignore_entities d1 = None then d1\<lparr>ignore_entities := Some {}\<rparr> else d1))"

definition init_option_dict ::
  "primitive_key \<Rightarrow> raw_option_dict \<Rightarrow> entityset_dict \<Rightarrow> error + var_dict option_dict" where
  "init_option_dict key option_dict es =
     (case init_option_loop key option_dict es empty_option_dict of
        Inl err \<Rightarrow> Inl err
      | Inr d \<Rightarrow> Inr (init_defaults d))"

section \<open>The store\<close>

text \<open>
  The reconciler mutates dicts that several names may refer to, so these objects live in
  a store and are referred to by address (an index; allocation appends).
  \<^item> \<open>var_dicts\<close> holds the dict objects that are the value of an
    \<^verbatim>\<open>'ignore_variables'\<close> key: the caller's global
    \<^verbatim>\<open>ignore_variables\<close> and the dict of each normalised option dict.
  \<^item> \<open>option_lists\<close> holds the list objects that are the values of the flattened
    table, each with the option dicts it contains. An option dict is created inside the
    list comprehension or list display that builds its list and is referred to from
    nowhere else, so it is addressed by its list and its position. The table maps
    several primitives of one tuple key to the same list object, that is, to the same
    address.
\<close>

record store =
  var_dicts :: "var_dict list"
  option_lists :: "nat option_dict list list"

type_synonym table = "(string \<times> nat) list"

definition with_ignore_variables :: "'a option_dict \<Rightarrow> 'b option \<Rightarrow> 'b option_dict" where
  "with_ignore_variables d iv =
     \<lparr>ignore_entities = ignore_entities d, include_entities = include_entities d,
      ignore_variables = iv, include_variables = include_variables d,
      ignore_groupby_entities = ignore_groupby_entities d,
      include_groupby_entities = include_groupby_entities d,
      ignore_groupby_variables = ignore_groupby_variables d,
      include_groupby_variables = include_groupby_variables d\<rparr>"

text \<open>Placing a fresh option dict in the store: its \<^verbatim>\<open>'ignore_variables'\<close> dict gets a new address.\<close>

definition alloc_option_dict :: "var_dict option_dict \<Rightarrow> store \<Rightarrow> nat option_dict \<times> store" where
  "alloc_option_dict d s =
     (case ignore_variables d of
        None \<Rightarrow> (with_ignore_variables d None, s)
      | Some vd \<Rightarrow>
          (with_ignore_variables d (Some (length (var_dicts s))),
           s\<lparr>var_dicts := var_dicts s @ [vd]\<rparr>))"

fun alloc_option_dicts :: "var_dict option_dict list \<Rightarrow> store \<Rightarrow> nat option_dict list \<times> store" where
  "alloc_option_dicts [] s = ([], s)"
| "alloc_option_dicts (d # ds) s =
     (let (r, s1) = alloc_option_dict d s;
          (rs, s2) = alloc_option_dicts ds s1
      in (r # rs, s2))"

definition alloc_option_list :: "var_dict option_dict list \<Rightarrow> store \<Rightarrow> nat \<times> store" where
  "alloc_option_list ds s =
     (let (rs, s1) = alloc_option_dicts ds s
      in (length (option_lists s1), s1\<lparr>option_lists := option_lists s1 @ [rs]\<rparr>))"

text \<open>Reading an option dict of the store as a value, for the match filter.\<close>

definition read_option_dict :: "store \<Rightarrow> nat option_dict \<Rightarrow> var_dict option_dict" where
  "read_option_dict s d =
     with_ignore_variables d (map_option (\<lambda>a. var_dicts s ! a) (ignore_variables d))"

definition read_options :: "store \<Rightarrow> table \<Rightarrow> string \<Rightarrow> var_dict option_dict list option" where
  "read_options s t primitive =
     map_option (\<lambda>a. map (read_option_dict s) (option_lists s ! a)) (map_of t primitive)"

section \<open>Primitive options table builder\<close>

text \<open>
  The primitive registry is not part of the module: the two dicts of
  \<^verbatim>\<open>get_aggregation_primitives()\<close> and
  \<^verbatim>\<open>get_transform_primitives()\<close> are parameters \<open>agg_prims\<close> and \<open>trans_prims\<close>, from
  a primitive's name to its \<^verbatim>\<open>input_types\<close>. An element of
  \<^verbatim>\<open>input_types\<close> is a variable type or, when the primitive has several
  signatures, a list of variable types.
\<close>

datatype input_type = VariableType string | TypeList "string list"

type_synonym registry = "string \<Rightarrow> input_type list option"

datatype raw_options = OptionList "raw_option_dict list" | OptionDict raw_option_dict

text \<open>
  \<^verbatim>\<open>agg.get(primitive_key) or trans.get(primitive_key)\<close>: the registries are
  keyed by name, so a tuple key finds nothing.
\<close>

definition lookup_primitive :: "registry \<Rightarrow> registry \<Rightarrow> primitive_key \<Rightarrow> input_type list option" where
  "lookup_primitive agg_prims trans_prims primitive_key =
     (case primitive_key of
        Name n \<Rightarrow> (case agg_prims n of Some p \<Rightarrow> Some p | None \<Rightarrow> trans_prims n)
      | Names ns \<Rightarrow> None)"

text \<open>
  The number of input slots the assertion compares with the number of option dicts.
  Reading \<^verbatim>\<open>primitive.input_types\<close> of \<^verbatim>\<open>None\<close> raises
  \<^verbatim>\<open>AttributeError\<close>, \<^verbatim>\<open>input_types[0]\<close> of an empty list
  \<^verbatim>\<open>IndexError\<close>.
\<close>

definition slot_count :: "registry \<Rightarrow> registry \<Rightarrow> primitive_key \<Rightarrow> error + nat" where
  "slot_count agg_prims trans_prims primitive_key =
     (case lookup_primitive agg_prims trans_prims primitive_key of
        None \<Rightarrow> Inl AttributeError
      | Some input_types \<Rightarrow>
          (case input_types of
             [] \<Rightarrow> Inl IndexError
           | TypeList ts # rest \<Rightarrow> Inr (length ts)
           | VariableType t # rest \<Rightarrow> Inr (length input_types)))"

definition init_options ::
  "registry \<Rightarrow> registry \<Rightarrow> primitive_key \<Rightarrow> raw_options \<Rightarrow> entityset_dict \<Rightarrow>
   error + var_dict option_dict list" where
  "init_options agg_prims trans_prims primitive_key options es =
     (case options of
        OptionList l \<Rightarrow>
          (case slot_count agg_prims trans_prims primitive_key of
             Inl err \<Rightarrow> Inl err
           | Inr n \<Rightarrow>
               (if n \<noteq> length l then Inl (NumberOfOptionsMismatch primitive_key)
                else collect (map (\<lambda>option. init_option_dict primitive_key option es) l)))
      | OptionDict d \<Rightarrow>
          (case init_option_dict primitive_key d es of
             Inl err \<Rightarrow> Inl err
           | Inr r \<Rightarrow> Inr [r]))"

definition key_names :: "primitive_key \<Rightarrow> string list" where
  "key_names primitive_key = (case primitive_key of Name n \<Rightarrow> [n] | Names ns \<Rightarrow> ns)"

fun assign_options :: "string list \<Rightarrow> nat \<Rightarrow> table \<Rightarrow> error + table" where
  "assign_options [] a flattened_options = Inr flattened_options"
| "assign_options (each_primitive # rest) a flattened_options =
     (case map_of flattened_options each_primitive of
        Some b \<Rightarrow> Inl (MultipleOptionsFound each_primitive)
      | None \<Rightarrow> assign_options rest a (AList.update each_primitive a flattened_options))"

fun init_primitive_loop ::
  "registry \<Rightarrow> registry \<Rightarrow> (primitive_key \<times> raw_options) list \<Rightarrow> entityset_dict \<Rightarrow>
   table \<times> store \<Rightarrow> error + table \<times> store" where
  "init_primitive_loop agg_prims trans_prims [] es (flattened_options, s) = Inr (flattened_options, s)"
| "init_primitive_loop agg_prims trans_prims ((primitive_key, options) # rest) es (flattened_options, s) =
     (case init_options agg_prims trans_prims primitive_key options es of
        Inl err \<Rightarrow> Inl err
      | Inr ds \<Rightarrow>
          (let (a, s1) = alloc_option_list ds s
           in (case assign_options (key_names primitive_key) a flattened_options of
                 Inl err \<Rightarrow> Inl err
               | Inr flattened \<Rightarrow> init_primitive_loop agg_prims trans_prims rest es (flattened, s1))))"

definition init_primitive_options ::
  "registry \<Rightarrow> registry \<Rightarrow> (primitive_key \<times> raw_options) list \<Rightarrow> entityset_dict \<Rightarrow> store \<Rightarrow>
   error + table \<times> store" where
  "init_primitive_options agg_prims trans_prims primitive_options es s =
     init_primitive_loop agg_prims trans_prims primitive_options es ([], s)"

section \<open>Global reconciler\<close>

text \<open>
  An element of \<^verbatim>\<open>all_primitives\<close> is a name or a primitive object, of
  which only the name is used. An entity of the entityset has an id and variables.
\<close>

datatype primitive_ref = PrimitiveName string | PrimitiveObject string

fun primitive_name :: "primitive_ref \<Rightarrow> string" where
  "primitive_name (PrimitiveName n) = n"
| "primitive_name (PrimitiveObject n) = n"

datatype entity = Entity entity_id "variable_id list"

definition entityset_dict_of :: "entity list \<Rightarrow> entityset_dict" where
  "entityset_dict_of entities =
     fold (\<lambda>ent d. case ent of Entity i vs \<Rightarrow> AList.update i vs d) entities []"

text \<open>
  \<^verbatim>\<open>included_entities\<close>: per option dict the union of its
  \<^verbatim>\<open>include_entities\<close> and the keys of its \<^verbatim>\<open>include_variables\<close>
  (an absent or empty value counts as the empty set), united over the option dicts.
\<close>

definition included_of :: "'v option_dict \<Rightarrow> entity_id set" where
  "included_of option =
     (case include_entities option of None \<Rightarrow> {} | Some S \<Rightarrow> S) \<union>
     (case include_variables option of None \<Rightarrow> {} | Some d \<Rightarrow> set (map fst d))"

definition included_entities :: "'v option_dict list \<Rightarrow> entity_id set" where
  "included_entities options = \<Union> (set (map included_of options))"

text \<open>
  The first inner loop: each option dict gets a new \<^verbatim>\<open>'ignore_entities'\<close>
  set, the union of its old one with \<open>extra\<close>, which is
  \<^verbatim>\<open>ignore_entities.difference(included_entities)\<close>.
\<close>

fun add_ignore_entities ::
  "entity_id set \<Rightarrow> 'v option_dict list \<Rightarrow> error + 'v option_dict list" where
  "add_ignore_entities extra [] = Inr []"
| "add_ignore_entities extra (option # options) =
     (case ignore_entities option of
        None \<Rightarrow> Inl (KeyError ''ignore_entities'')
      | Some ign \<Rightarrow>
          (case add_ignore_entities extra options of
             Inl err \<Rightarrow> Inl err
           | Inr rest \<Rightarrow> Inr (option\<lparr>ignore_entities := Some (ign \<union> extra)\<rparr> # rest)))"

text \<open>
  The body of the second loop for one item of the global \<^verbatim>\<open>ignore_variables\<close>
  and one option dict. The write goes to the dict object that the option dict refers to,
  at its address \<open>a\<close>.
\<close>

definition reconcile_variables ::
  "entity_id \<Rightarrow> variable_id set \<Rightarrow> entity_id set \<Rightarrow> nat option_dict \<Rightarrow> store \<Rightarrow> error + store" where
  "reconcile_variables entity ignore_vars included option s =
     (case ignore_variables option of
        None \<Rightarrow> Inl (KeyError ''ignore_variables'')
      | Some a \<Rightarrow>
          (let d = var_dicts s ! a
           in (case map_of d entity of
                 Some old \<Rightarrow>
                   Inr (s\<lparr>var_dicts := (var_dicts s)[a := AList.update entity (old \<union> ignore_vars) d]\<rparr>)
               | None \<Rightarrow>
                   (if entity \<in> included then Inr s
                    else Inr (s\<lparr>var_dicts := (var_dicts s)[a := AList.update entity ignore_vars d]\<rparr>)))))"

fun options_loop ::
  "entity_id \<Rightarrow> variable_id set \<Rightarrow> entity_id set \<Rightarrow> nat option_dict list \<Rightarrow> store \<Rightarrow> error + store" where
  "options_loop entity ignore_vars included [] s = Inr s"
| "options_loop entity ignore_vars included (option # options) s =
     (case reconcile_variables entity ignore_vars included option s of
        Inl err \<Rightarrow> Inl err
      | Inr s1 \<Rightarrow> options_loop entity ignore_vars included options s1)"

text \<open>
  \<^verbatim>\<open>for entity, ignore_vars in ignore_variables.items()\<close>, where the dict
  is the object at address \<open>iv\<close>. The loop body may write to that very object (an
  option dict can refer to it), so the iterator is modelled as Python runs it: it reads
  the item at the next position of the dict as it is now, and raises
  \<^verbatim>\<open>RuntimeError\<close> when the size of the dict is no longer the size \<open>n\<close> it
  had at the start. \<open>k\<close> is the number of items still to visit.
\<close>

fun items_loop ::
  "nat \<Rightarrow> nat \<Rightarrow> nat \<Rightarrow> entity_id set \<Rightarrow> nat option_dict list \<Rightarrow> store \<Rightarrow> error + store" where
  "items_loop iv n 0 included options s =
     (if length (var_dicts s ! iv) \<noteq> n then Inl RuntimeError else Inr s)"
| "items_loop iv n (Suc k) included options s =
     (let d = var_dicts s ! iv
      in if length d \<noteq> n then Inl RuntimeError
         else (case d ! (n - Suc k) of
                 (entity, ignore_vars) \<Rightarrow>
                   (case options_loop entity ignore_vars included options s of
                      Inl err \<Rightarrow> Inl err
                    | Inr s1 \<Rightarrow> items_loop iv n k included options s1)))"

text \<open>
  The branch for a primitive that has an entry in the table, the list object at address
  \<open>a\<close>.
\<close>

definition reconcile ::
  "entity_id set \<Rightarrow> nat \<Rightarrow> nat \<Rightarrow> entity_id set \<times> store \<Rightarrow> error + entity_id set \<times> store" where
  "reconcile g_ignore_entities iv a st =
     (case st of
        (global_ignore_entities, s) \<Rightarrow>
          (let options = option_lists s ! a;
               included = included_entities options
           in (case add_ignore_entities (g_ignore_entities - included) options of
                 Inl err \<Rightarrow> Inl err
               | Inr options1 \<Rightarrow>
                   (let s1 = s\<lparr>option_lists := (option_lists s)[a := options1]\<rparr>;
                        n = length (var_dicts s1 ! iv)
                    in (case items_loop iv n n included options1 s1 of
                          Inl err \<Rightarrow> Inl err
                        | Inr s2 \<Rightarrow> Inr (global_ignore_entities - included, s2))))))"

text \<open>
  The default option dict of a primitive without an entry. Its
  \<^verbatim>\<open>'ignore_variables'\<close> is the caller's dict itself, by its address \<open>iv\<close>;
  its \<^verbatim>\<open>'ignore_entities'\<close> is the caller's set, of which the model keeps the
  value.
\<close>

definition default_options :: "entity_id set \<Rightarrow> nat \<Rightarrow> nat option_dict" where
  "default_options g_ignore_entities iv =
     empty_option_dict\<lparr>ignore_entities := Some g_ignore_entities, ignore_variables := Some iv\<rparr>"

fun primitives_loop ::
  "primitive_ref list \<Rightarrow> entity_id set \<Rightarrow> nat \<Rightarrow> table \<times> entity_id set \<times> store \<Rightarrow>
   error + table \<times> entity_id set \<times> store" where
  "primitives_loop [] g_ignore_entities iv st = Inr st"
| "primitives_loop (primitive # rest) g_ignore_entities iv (primitive_options, global_ignore_entities, s) =
     (case map_of primitive_options (primitive_name primitive) of
        Some a \<Rightarrow>
          (case reconcile g_ignore_entities iv a (global_ignore_entities, s) of
             Inl err \<Rightarrow> Inl err
           | Inr (g, s1) \<Rightarrow> primitives_loop rest g_ignore_entities iv (primitive_options, g, s1))
      | None \<Rightarrow>
          primitives_loop rest g_ignore_entities iv
            (AList.update (primitive_name primitive) (length (option_lists s)) primitive_options,
             global_ignore_entities,
             s\<lparr>option_lists := option_lists s @ [[default_options g_ignore_entities iv]]\<rparr>))"

text \<open>
  The whole function; \<open>g_ignore_entities\<close> and \<open>g_ignore_variables\<close> are its
  parameters \<^verbatim>\<open>ignore_entities\<close> and \<^verbatim>\<open>ignore_variables\<close>.
  The caller's \<^verbatim>\<open>ignore_variables\<close> dict is the object at address 0 of the
  initial store; the result is the flattened table, the residual
  global ignore set and the store as the call leaves it.
\<close>

definition initial_store :: "var_dict \<Rightarrow> store" where
  "initial_store g_ignore_variables = \<lparr>var_dicts = [g_ignore_variables], option_lists = []\<rparr>"

definition generate_all_primitive_options ::
  "registry \<Rightarrow> registry \<Rightarrow> primitive_ref list \<Rightarrow> (primitive_key \<times> raw_options) list \<Rightarrow>
   entity_id set \<Rightarrow> var_dict \<Rightarrow> entity list \<Rightarrow> error + (table \<times> entity_id set) \<times> store" where
  "generate_all_primitive_options agg_prims trans_prims all_primitives primitive_options
     g_ignore_entities g_ignore_variables es =
     (case init_primitive_options agg_prims trans_prims primitive_options (entityset_dict_of es)
             (initial_store g_ignore_variables) of
        Inl err \<Rightarrow> Inl err
      | Inr (flattened_options, s1) \<Rightarrow>
          (case primitives_loop all_primitives g_ignore_entities 0
                  (flattened_options, g_ignore_entities, s1) of
             Inl err \<Rightarrow> Inl err
           | Inr (resolved, global_ignore_entities, s2) \<Rightarrow>
               Inr ((resolved, global_ignore_entities), s2)))"

section \<open>Notions used to state the properties\<close>

text \<open>
  An item of a raw option dict fails the checks of the normaliser's loop body when its
  key is not an option key or the validator of its key rejects its value.
\<close>

definition fails_check :: "entityset_dict \<Rightarrow> string \<times> raw_value \<Rightarrow> bool" where
  "fails_check es item =
     (case item of
        (option_key, option) \<Rightarrow>
          (case map_of get_primitive_options option_key of
             None \<Rightarrow> True
           | Some check \<Rightarrow> \<not> fst (check option es)))"

text \<open>
  What the first inner loop of the reconciler makes of a list of option dicts: every
  \<^verbatim>\<open>'ignore_entities'\<close> set is united with the global set \<open>G\<close> less the
  entities the list includes.
\<close>

definition with_global_ignore :: "entity_id set \<Rightarrow> 'v option_dict list \<Rightarrow> 'v option_dict list" where
  "with_global_ignore G options =
     map (\<lambda>option. option\<lparr>ignore_entities :=
            map_option (\<lambda>ign. ign \<union> (G - included_entities options)) (ignore_entities option)\<rparr>)
       options"

text \<open>
  An option dict is normal when it has the two keys that normalisation always sets; a
  store is normal when every option dict in it is.
\<close>

definition normal :: "'v option_dict \<Rightarrow> bool" where
  "normal option = (ignore_entities option \<noteq> None \<and> ignore_variables option \<noteq> None)"

definition normal_store :: "store \<Rightarrow> bool" where
  "normal_store s = (\<forall>options \<in> set (option_lists s). \<forall>option \<in> set options. normal option)"

text \<open>Every address in the table is the address of a list object of the store.\<close>

definition table_ok :: "table \<Rightarrow> store \<Rightarrow> bool" where
  "table_ok t s = (\<forall>q b. map_of t q = Some b \<longrightarrow> b < length (option_lists s))"

text \<open>
  The union of \<^verbatim>\<open>included_entities\<close> over the primitives of \<open>ps\<close> that have
  an entry in the table \<open>t\<close>, read in the store \<open>s\<close>.
\<close>

definition explicitly_included :: "table \<Rightarrow> store \<Rightarrow> primitive_ref list \<Rightarrow> entity_id set" where
  "explicitly_included t s ps =
     (\<Union>p \<in> set ps. case map_of t (primitive_name p) of
                       None \<Rightarrow> {}
                     | Some a \<Rightarrow> included_entities (option_lists s ! a))"

section \<open>Example inputs\<close>

text \<open>
  The entityset of the running example has the entities \<^verbatim>\<open>customers\<close> and
  \<^verbatim>\<open>transactions\<close>. The option dicts below are normalised ones: both
  \<^verbatim>\<open>'ignore_entities'\<close> and \<^verbatim>\<open>'ignore_variables'\<close> are present.
\<close>

definition normal_options :: "var_dict option_dict" where
  "normal_options = empty_option_dict\<lparr>ignore_entities := Some {}, ignore_variables := Some []\<rparr>"

definition groupby_include_options :: "var_dict option_dict" where
  "groupby_include_options =
     normal_options\<lparr>include_groupby_variables := Some [(''customers'', {''id''})]\<rparr>"

definition include_age_options :: "var_dict option_dict" where
  "include_age_options =
     normal_options\<lparr>ignore_variables := Some [(''transactions'', {''amount''})],
                    include_variables := Some [(''customers'', {''age''})]\<rparr>"

definition ignore_amount_options :: "var_dict option_dict" where
  "ignore_amount_options =
     normal_options\<lparr>ignore_variables := Some [(''transactions'', {''amount''})]\<rparr>"

definition ignore_customers_options :: "var_dict option_dict" where
  "ignore_customers_options =
     normal_options\<lparr>ignore_entities := Some {''customers''},
                    ignore_groupby_entities := Some {''sessions''}\<rparr>"

text \<open>
  A registry with the one-input primitive \<^verbatim>\<open>sum\<close> and the two-input primitive
  \<^verbatim>\<open>divide\<close>, and an empty registry.
\<close>

definition example_registry :: registry where
  "example_registry =
     (\<lambda>n. if n = ''sum'' then Some [VariableType ''Numeric'']
          else if n = ''divide'' then Some [VariableType ''Numeric'', VariableType ''Numeric'']
          else None)"

definition no_registry :: registry where
  "no_registry = (\<lambda>n. None)"

text \<open>
  Options for the tuple key \<^verbatim>\<open>('sum', 'divide')\<close> that include the entity
  \<^verbatim>\<open>X\<close> and ignore \<^verbatim>\<open>Z\<close>, and the option dict they normalise to,
  with \<open>ign\<close> as its \<^verbatim>\<open>'ignore_entities'\<close> and its own dict at address 1.
\<close>

definition xz_options :: "(primitive_key \<times> raw_options) list" where
  "xz_options =
     [(Names [''sum'', ''divide''],
       OptionDict [(''include_entities'', RawList [''X'']), (''ignore_entities'', RawList [''Z''])])]"

definition xz_record :: "entity_id set \<Rightarrow> nat option_dict" where
  "xz_record ign = empty_option_dict\<lparr>ignore_entities := Some ign, include_entities := Some {''X''},
                                      ignore_variables := Some 1\<rparr>"

section \<open>Properties of the match filter\<close>

lemmas example_defs =
  normal_options_def groupby_include_options_def include_age_options_def
  ignore_amount_options_def ignore_customers_options_def empty_option_dict_def

text \<open>
  Claim C1 says that the groupby filter rejects every feature that is not an identity
  feature, whatever the option dict. The code does so in three of its four branches.
  In the branch where only \<^verbatim>\<open>'include_groupby_variables'\<close> is present the
  second disjunct lacks the \<^verbatim>\<open>isinstance\<close> test, and the filter accepts a
  non-identity feature exactly when its entity is not a key of that dict.
\<close>

theorem groupby_filter_other_feature:
  "groupby_filter_generator options (OtherFeature e) =
     (case (include_groupby_variables options, ignore_groupby_variables options) of
        (Some inc, None) \<Rightarrow> e \<notin> dom (map_of inc)
      | (Some inc, Some ign) \<Rightarrow> False
      | (None, ign) \<Rightarrow> False)"
  by (simp add: groupby_filter_generator_def passes_include_groupby_filter_def
      passes_ignore_groupby_filter_def has_key_def domIff split: option.splits)

text \<open>
  C1, at the failing input: a non-identity feature of \<^verbatim>\<open>transactions\<close> is
  accepted as a groupby key when only the variables of \<^verbatim>\<open>customers\<close> are
  included.
\<close>

theorem groupby_filter_other_feature_witness:
  "groupby_filter_generator groupby_include_options (OtherFeature ''transactions'') = True \<and>
   filter_groupby_matches_by_options [OtherFeature ''transactions''] [groupby_include_options] =
     Inr {[OtherFeature ''transactions'']}"
proof -
  have a: "groupby_filter_generator groupby_include_options (OtherFeature ''transactions'') = True"
    using groupby_filter_other_feature [of groupby_include_options "''transactions''"]
    by (simp add: example_defs)
  show ?thesis
    by (simp add: a filter_groupby_matches_by_options_def filter_matches_by_options_def
        is_valid_match_def generator_def py_all_def)
qed

text \<open>
  Claim C5: for an identity feature of entity \<open>e\<close> and variable \<open>v\<close>, and a normalised
  option dict (one with \<^verbatim>\<open>'ignore_variables'\<close>, here \<open>ign\<close>), the direct
  filter returns a value. With \<^verbatim>\<open>'include_variables'\<close> present (\<open>inc\<close>) the
  feature passes iff \<open>e\<close> is a key of \<open>inc\<close> and \<open>v\<close> is in its set, or \<open>e\<close> is not a
  key of \<open>inc\<close> and the feature passes the ignore rule. With it absent the feature
  passes iff it passes the ignore rule: \<open>e\<close> is not a key of \<open>ign\<close>, or \<open>v\<close> is not in
  its set.
\<close>

theorem variable_filter_identity:
  assumes "ignore_variables options = Some ign"
  shows "(\<forall>inc. include_variables options = Some inc \<longrightarrow>
            variable_filter_generator options (IdentityFeature e v) =
              Inr ((e \<in> dom (map_of inc) \<and> (\<exists>vs. map_of inc e = Some vs \<and> v \<in> vs)) \<or>
                   (e \<notin> dom (map_of inc) \<and>
                      (e \<notin> dom (map_of ign) \<or> (\<exists>vs. map_of ign e = Some vs \<and> v \<notin> vs))))) \<and>
         (include_variables options = None \<longrightarrow>
            variable_filter_generator options (IdentityFeature e v) =
              Inr (e \<notin> dom (map_of ign) \<or> (\<exists>vs. map_of ign e = Some vs \<and> v \<notin> vs)))"
  using assms
  by (auto simp add: variable_filter_generator_def passes_include_filter_def
      passes_ignore_filter_def has_key_def lists_variable_def domIff split: option.splits)

text \<open>
  C5 at concrete inputs: an included column passes, an ignored column of an entity that
  the include dict does not list is rejected, and without an include dict the ignore
  rule alone decides.
\<close>

theorem variable_filter_identity_witness:
  "ignore_variables include_age_options = Some [(''transactions'', {''amount''})] \<and>
   variable_filter_generator include_age_options (IdentityFeature ''customers'' ''age'') = Inr True \<and>
   variable_filter_generator include_age_options (IdentityFeature ''customers'' ''id'') = Inr False \<and>
   variable_filter_generator include_age_options (IdentityFeature ''transactions'' ''amount'') = Inr False \<and>
   variable_filter_generator include_age_options (IdentityFeature ''transactions'' ''id'') = Inr True \<and>
   variable_filter_generator ignore_amount_options (IdentityFeature ''transactions'' ''amount'') = Inr False \<and>
   variable_filter_generator ignore_amount_options (IdentityFeature ''transactions'' ''customer_id'') = Inr True"
proof -
  have i: "ignore_variables include_age_options = Some [(''transactions'', {''amount''})]"
    by (simp add: example_defs)
  have j: "ignore_variables ignore_amount_options = Some [(''transactions'', {''amount''})]"
    by (simp add: example_defs)
  have inc: "include_variables include_age_options = Some [(''customers'', {''age''})]"
    by (simp add: example_defs)
  have none: "include_variables ignore_amount_options = None"
    by (simp add: example_defs)
  show ?thesis
    using variable_filter_identity [OF i, of "''customers''" "''age''"]
      variable_filter_identity [OF i, of "''customers''" "''id''"]
      variable_filter_identity [OF i, of "''transactions''" "''amount''"]
      variable_filter_identity [OF i, of "''transactions''" "''id''"]
      variable_filter_identity [OF j, of "''transactions''" "''amount''"]
      variable_filter_identity [OF j, of "''transactions''" "''customer_id''"]
    by (simp add: i inc none)
qed

lemma collect_all_Inr:
  "\<forall>r \<in> set rs. r = Inr x \<Longrightarrow> collect rs = Inr (replicate (length rs) x)"
  by (induction rs) auto

lemma should_ignore_entity_False:
  assumes "include_entities opt = None" "ignore_entities opt = Some ign" "e \<notin> ign"
    "groupby \<longrightarrow> include_groupby_entities opt = None \<and>
                (\<forall>S. ignore_groupby_entities opt = Some S \<longrightarrow> e \<notin> S)"
  shows "should_ignore_entity e groupby opt = Inr False"
  using assms
  by (cases "ignore_groupby_entities opt")
     (simp_all add: should_ignore_entity_def absent_from_def mem_opt_def)

text \<open>
  Claim C6: an entity that no option dict mentions is admissible, in both modes. "Not
  mentioned" is: no dict has \<^verbatim>\<open>'include_entities'\<close>, the entity is in no
  \<^verbatim>\<open>'ignore_entities'\<close> set (a key every normalised dict has), and, in
  groupby mode, no dict has \<^verbatim>\<open>'include_groupby_entities'\<close> and the entity is
  in no \<^verbatim>\<open>'ignore_groupby_entities'\<close> set. Then the call returns
  \<^verbatim>\<open>False\<close>.
\<close>

theorem ignore_entity_unmentioned:
  assumes "\<forall>opt \<in> set options.
             include_entities opt = None \<and>
             (\<exists>ign. ignore_entities opt = Some ign \<and> e \<notin> ign) \<and>
             (groupby \<longrightarrow> include_groupby_entities opt = None \<and>
                (\<forall>S. ignore_groupby_entities opt = Some S \<longrightarrow> e \<notin> S))"
  shows "ignore_entity_for_primitive options e groupby = Inr False"
proof -
  have "\<forall>r \<in> set (map (should_ignore_entity e groupby) options). r = Inr False"
  proof
    fix r assume "r \<in> set (map (should_ignore_entity e groupby) options)"
    then obtain opt where o: "opt \<in> set options" and r: "r = should_ignore_entity e groupby opt"
      by auto
    from o assms obtain ign where "include_entities opt = None"
      "ignore_entities opt = Some ign" "e \<notin> ign"
      "groupby \<longrightarrow> include_groupby_entities opt = None \<and>
                (\<forall>S. ignore_groupby_entities opt = Some S \<longrightarrow> e \<notin> S)"
      by blast
    then show "r = Inr False" unfolding r by (rule should_ignore_entity_False)
  qed
  then have "collect (map (should_ignore_entity e groupby) options) =
      Inr (replicate (length (map (should_ignore_entity e groupby) options)) False)"
    by (rule collect_all_Inr)
  then show ?thesis
    by (simp add: ignore_entity_for_primitive_def py_any_def list_ex_iff)
qed

text \<open>
  C6 at a concrete input: two option dicts that ignore \<^verbatim>\<open>customers\<close> and, as
  a groupby entity, \<^verbatim>\<open>sessions\<close>; the entity \<^verbatim>\<open>transactions\<close> is
  admissible in both modes.
\<close>

theorem ignore_entity_unmentioned_witness:
  "ignore_entity_for_primitive [ignore_customers_options, normal_options] ''transactions'' False = Inr False \<and>
   ignore_entity_for_primitive [ignore_customers_options, normal_options] ''transactions'' True = Inr False"
proof -
  have h: "\<forall>opt \<in> set [ignore_customers_options, normal_options].
             include_entities opt = None \<and>
             (\<exists>ign. ignore_entities opt = Some ign \<and> ''transactions'' \<notin> ign) \<and>
             (groupby \<longrightarrow> include_groupby_entities opt = None \<and>
                (\<forall>S. ignore_groupby_entities opt = Some S \<longrightarrow> ''transactions'' \<notin> S))"
    for groupby
    by (simp add: example_defs)
  show ?thesis
    using ignore_entity_unmentioned [OF h [of False]] ignore_entity_unmentioned [OF h [of True]]
    by simp
qed

text \<open>
  Claim C3 says that filtering with an empty list of option dicts returns every
  candidate match. The code reads \<^verbatim>\<open>options[0]\<close> in
  \<^verbatim>\<open>is_valid_match\<close>, which is called once there is a match to test. As
  amended: with an empty list of option dicts the call returns the empty set when there
  is no candidate match, and raises \<^verbatim>\<open>IndexError\<close> otherwise.
\<close>

theorem filter_empty_options:
  "filter_matches_by_options matches [] groupby =
     (if matches = [] then Inr {} else Inl IndexError)"
  by (cases matches) (simp_all add: filter_matches_by_options_def is_valid_match_def)

text \<open>C3 as amended, at no match and at one match.\<close>

theorem filter_empty_options_witness:
  "filter_matches_by_options [] [] False = Inr {} \<and>
   filter_matches_by_options [[OtherFeature ''customers'']] [] True = Inl IndexError"
  using filter_empty_options [of "[]" False]
    filter_empty_options [of "[[OtherFeature ''customers'']]" True]
  by simp

text \<open>
  C3 as stated fails for one candidate match: the call raises and returns no set.
\<close>

theorem filter_empty_options_counterexample:
  "filter_matches_by_options [[IdentityFeature ''customers'' ''age'']] [] False = Inl IndexError \<and>
   filter_matches_by_options [[IdentityFeature ''customers'' ''age'']] [] False \<noteq>
     Inr {[IdentityFeature ''customers'' ''age'']}"
  by (simp add: filter_matches_by_options_def is_valid_match_def)

lemma is_valid_match_many:
  "1 < length options \<Longrightarrow>
   is_valid_match groupby options m =
     py_all (map (\<lambda>(opt, f). generator groupby opt f) (zip options m))"
  by (simp add: is_valid_match_def zip_map1 case_prod_unfold comp_def)

text \<open>
  Claim C10: with more than one option dict the positions are paired by
  \<^verbatim>\<open>zip\<close>. Features of the match beyond the number of option dicts are not
  tested: the verdict on \<open>m @ extra\<close> is the verdict on \<open>m\<close>. Option dicts beyond the
  length of the match constrain nothing: the verdict is the conjunction over the first
  \<open>length m\<close> dicts. Hence a match of the wrong length is accepted when the paired
  positions pass.
\<close>

theorem zip_truncation:
  "(1 < length options \<and> length m = length options \<longrightarrow>
      is_valid_match groupby options (m @ extra) = is_valid_match groupby options m) \<and>
   (1 < length (opts @ extra_opts) \<and> length opts = length m \<longrightarrow>
      is_valid_match groupby (opts @ extra_opts) m =
        py_all (map (\<lambda>(opt, f). generator groupby opt f) (zip opts m)))"
proof (intro conjI impI)
  assume a: "1 < length options \<and> length m = length options"
  then have "zip options (m @ extra) = zip options m"
    by (simp add: zip_append2)
  with a show "is_valid_match groupby options (m @ extra) = is_valid_match groupby options m"
    by (simp only: is_valid_match_many)
next
  assume a: "1 < length (opts @ extra_opts) \<and> length opts = length m"
  then have "zip (opts @ extra_opts) m = zip opts m"
    by (simp add: zip_append1)
  with a show "is_valid_match groupby (opts @ extra_opts) m =
        py_all (map (\<lambda>(opt, f). generator groupby opt f) (zip opts m))"
    by (simp only: is_valid_match_many)
qed

text \<open>
  C10 at concrete inputs, with two option dicts that ignore
  \<^verbatim>\<open>transactions.amount\<close>. A match of three features is accepted although its
  third feature is that ignored column, and a match of one feature is accepted.
\<close>

theorem zip_truncation_witness:
  "is_valid_match False [ignore_amount_options, ignore_amount_options]
     ([IdentityFeature ''transactions'' ''id'', IdentityFeature ''customers'' ''age''] @
      [IdentityFeature ''transactions'' ''amount'']) = Inr True \<and>
   is_valid_match False ([ignore_amount_options] @ [ignore_amount_options])
     [IdentityFeature ''transactions'' ''id''] = Inr True \<and>
   filter_matches_by_options
     [[IdentityFeature ''transactions'' ''id'', IdentityFeature ''customers'' ''age'',
       IdentityFeature ''transactions'' ''amount''],
      [IdentityFeature ''transactions'' ''id'']]
     [ignore_amount_options, ignore_amount_options] False =
   Inr {[IdentityFeature ''transactions'' ''id'', IdentityFeature ''customers'' ''age'',
         IdentityFeature ''transactions'' ''amount''],
        [IdentityFeature ''transactions'' ''id'']}"
proof -
  have v: "variable_filter_generator ignore_amount_options (IdentityFeature ''transactions'' ''id'') = Inr True"
    "variable_filter_generator ignore_amount_options (IdentityFeature ''customers'' ''age'') = Inr True"
    by (simp_all add: variable_filter_generator_def passes_ignore_filter_def has_key_def
        lists_variable_def example_defs)
  have two: "is_valid_match False [ignore_amount_options, ignore_amount_options]
     [IdentityFeature ''transactions'' ''id'', IdentityFeature ''customers'' ''age''] = Inr True"
    by (simp add: is_valid_match_def generator_def py_all_def v)
  have a: "is_valid_match False [ignore_amount_options, ignore_amount_options]
     ([IdentityFeature ''transactions'' ''id'', IdentityFeature ''customers'' ''age''] @
      [IdentityFeature ''transactions'' ''amount'']) = Inr True"
    using zip_truncation [of "[ignore_amount_options, ignore_amount_options]"
        "[IdentityFeature ''transactions'' ''id'', IdentityFeature ''customers'' ''age'']"
        False "[IdentityFeature ''transactions'' ''amount'']"] two
    by simp
  have b: "is_valid_match False ([ignore_amount_options] @ [ignore_amount_options])
     [IdentityFeature ''transactions'' ''id''] = Inr True"
    using zip_truncation [where opts = "[ignore_amount_options]"
        and extra_opts = "[ignore_amount_options]"
        and m = "[IdentityFeature ''transactions'' ''id'']" and groupby = False]
    by (simp add: generator_def py_all_def v)
  have c: "filter_matches_by_options
     [[IdentityFeature ''transactions'' ''id'', IdentityFeature ''customers'' ''age'',
       IdentityFeature ''transactions'' ''amount''],
      [IdentityFeature ''transactions'' ''id'']]
     [ignore_amount_options, ignore_amount_options] False =
   Inr {[IdentityFeature ''transactions'' ''id'', IdentityFeature ''customers'' ''age'',
         IdentityFeature ''transactions'' ''amount''],
        [IdentityFeature ''transactions'' ''id'']}"
    using a b by (simp add: filter_matches_by_options_def insert_commute)
  from a b c show ?thesis by simp
qed

section \<open>Properties of the normaliser and the table builder\<close>

lemma unrecognized_key:
  "k \<notin> {''ignore_entities'', ''include_entities'', ''ignore_variables'', ''include_variables'',
         ''ignore_groupby_entities'', ''include_groupby_entities'',
         ''ignore_groupby_variables'', ''include_groupby_variables''} \<Longrightarrow>
   map_of get_primitive_options k = None"
  by (simp add: get_primitive_options_def)

lemma recognized_key:
  "map_of get_primitive_options k = None \<longleftrightarrow>
   k \<notin> {''ignore_entities'', ''include_entities'', ''ignore_variables'', ''include_variables'',
         ''ignore_groupby_entities'', ''include_groupby_entities'',
         ''ignore_groupby_variables'', ''include_groupby_variables''}"
  by (simp add: get_primitive_options_def)

lemma init_option_loop_find:
  "init_option_loop key d es acc =
     (case find (fails_check es) d of
        None \<Rightarrow> Inr (fold (\<lambda>(k, v). store_option k v) d acc)
      | Some (k, w) \<Rightarrow>
          (if map_of get_primitive_options k = None then Inl (UnrecognizedOption k key)
           else Inl (IncorrectTypeFormatting k key)))"
proof (induction d arbitrary: acc)
  case Nil
  show ?case by simp
next
  case (Cons p d)
  obtain k w where p: "p = (k, w)" by (cases p)
  show ?case
  proof (cases "map_of get_primitive_options k")
    case None
    then have "fails_check es (k, w)" by (simp add: fails_check_def)
    with None show ?thesis by (simp add: p)
  next
    case (Some check)
    show ?thesis
    proof (cases "fst (check w es)")
      case True
      with Some have "\<not> fails_check es (k, w)" by (simp add: fails_check_def)
      with Some True show ?thesis by (simp add: p Cons.IH split: option.splits)
    next
      case False
      with Some have "fails_check es (k, w)" by (simp add: fails_check_def)
      with Some False show ?thesis by (simp add: p)
    qed
  qed
qed

lemma find_first:
  "\<forall>x \<in> set pre. \<not> P x \<Longrightarrow> P y \<Longrightarrow> find P (pre @ y # post) = Some y"
  by (induction pre) simp_all

lemma find_fails_check_unrecognized:
  assumes "(bad, v) \<in> set d" and "map_of get_primitive_options bad = None"
  shows "\<exists>k w. find (fails_check es) d = Some (k, w)"
proof -
  from assms(2) have fc: "fails_check es (bad, v)"
    by (simp add: fails_check_def)
  have "\<exists>x \<in> set d. fails_check es x"
    by (rule bexI [where P = "fails_check es" and x = "(bad, v)", OF fc assms(1)])
  then have "find (fails_check es) d \<noteq> None"
    by (auto simp add: find_None_iff)
  then obtain x where "find (fails_check es) d = Some x"
    by (cases "find (fails_check es) d") simp_all
  then show ?thesis by (cases x) simp
qed

text \<open>
  Claim C7 says that a raw option dict with an unrecognised key always raises the
  "Unrecognized primitive option" error. The loop handles the items in the order of the
  dict and raises at the first item that fails either check. As amended: a raw option
  dict that contains a key \<open>bad\<close> outside the eight option keys yields no record. It has
  a first item \<open>(k, w)\<close>, in the order of the dict, that fails a check (\<open>find\<close> returns
  it), and the call raises the error of that item: "Incorrect type formatting" for \<open>k\<close>
  when \<open>k\<close> is an option key, "Unrecognized primitive option" for \<open>k\<close> otherwise. In
  particular it raises "Unrecognized primitive option" for \<open>bad\<close> when every key before
  \<open>bad\<close> is an option key whose value its validator accepts.
\<close>

theorem init_option_dict_unrecognized:
  assumes "option_dict = pre @ (bad, v) # post"
    and "bad \<notin> {''ignore_entities'', ''include_entities'', ''ignore_variables'',
                 ''include_variables'', ''ignore_groupby_entities'', ''include_groupby_entities'',
                 ''ignore_groupby_variables'', ''include_groupby_variables''}"
  shows "(\<exists>k w. find (fails_check es) option_dict = Some (k, w) \<and>
            init_option_dict key option_dict es =
              (if k \<in> {''ignore_entities'', ''include_entities'', ''ignore_variables'',
                        ''include_variables'', ''ignore_groupby_entities'',
                        ''include_groupby_entities'', ''ignore_groupby_variables'',
                        ''include_groupby_variables''}
               then Inl (IncorrectTypeFormatting k key)
               else Inl (UnrecognizedOption k key))) \<and>
         ((\<forall>(k, w) \<in> set pre. \<exists>check. map_of get_primitive_options k = Some check \<and> fst (check w es)) \<longrightarrow>
            init_option_dict key option_dict es = Inl (UnrecognizedOption bad key))"
proof -
  have none: "map_of get_primitive_options bad = None"
    using assms(2) by (rule unrecognized_key)
  have mem: "(bad, v) \<in> set option_dict"
    by (simp add: assms(1))
  from find_fails_check_unrecognized [OF mem none, where es = es] obtain k w where
    f: "find (fails_check es) option_dict = Some (k, w)"
    by (elim exE) (rule that)
  have r: "init_option_dict key option_dict es =
      (if map_of get_primitive_options k = None then Inl (UnrecognizedOption k key)
       else Inl (IncorrectTypeFormatting k key))"
    by (simp add: init_option_dict_def init_option_loop_find f)
  have one: "init_option_dict key option_dict es =
              (if k \<in> {''ignore_entities'', ''include_entities'', ''ignore_variables'',
                        ''include_variables'', ''ignore_groupby_entities'',
                        ''include_groupby_entities'', ''ignore_groupby_variables'',
                        ''include_groupby_variables''}
               then Inl (IncorrectTypeFormatting k key)
               else Inl (UnrecognizedOption k key))"
    unfolding r recognized_key by simp
  have two: "init_option_dict key option_dict es = Inl (UnrecognizedOption bad key)"
    if h: "\<forall>(k, w) \<in> set pre. \<exists>check. map_of get_primitive_options k = Some check \<and> fst (check w es)"
  proof -
    from h have "\<forall>x \<in> set pre. \<not> fails_check es x"
      by (auto simp add: fails_check_def)
    moreover have "fails_check es (bad, v)"
      using none by (simp add: fails_check_def)
    ultimately have "find (fails_check es) option_dict = Some (bad, v)"
      unfolding assms(1) by (rule find_first)
    with none show ?thesis
      by (simp add: init_option_dict_def init_option_loop_find)
  qed
  from f one two show ?thesis by blast
qed

text \<open>
  C7 as amended, at a dict whose unrecognised key follows a well-formed
  \<^verbatim>\<open>'ignore_entities'\<close> and precedes an ill-formed value, and at a dict whose
  unrecognised key follows an ill-formed \<^verbatim>\<open>'ignore_entities'\<close>.
\<close>

theorem init_option_dict_unrecognized_witness:
  "init_option_dict (Name ''sum'')
     ([(''ignore_entities'', RawList [''customers''])] @
      (''bogus_option'', RawList []) # [(''include_entities'', RawOther)]) [] =
   Inl (UnrecognizedOption ''bogus_option'' (Name ''sum'')) \<and>
   init_option_dict (Name ''sum'')
     ([(''ignore_entities'', RawOther)] @ (''bogus_option'', RawList []) # []) [] =
   Inl (IncorrectTypeFormatting ''ignore_entities'' (Name ''sum''))"
proof -
  have b: "''bogus_option'' \<notin> {''ignore_entities'', ''include_entities'', ''ignore_variables'',
                 ''include_variables'', ''ignore_groupby_entities'', ''include_groupby_entities'',
                 ''ignore_groupby_variables'', ''include_groupby_variables''}"
    by simp
  have h: "\<forall>(k, w) \<in> set [(''ignore_entities'', RawList [''customers''])].
     \<exists>check. map_of get_primitive_options k = Some check \<and> fst (check w [])"
    by (simp add: get_primitive_options_def list_entity_check_def)
  note one = init_option_dict_unrecognized [OF refl b,
      where pre = "[(''ignore_entities'', RawList [''customers''])]" and v = "RawList []"
        and post = "[(''include_entities'', RawOther)]" and es = "[]" and key = "Name ''sum''",
      THEN conjunct2, THEN mp, OF h]
  from init_option_dict_unrecognized [OF refl b,
      where pre = "[(''ignore_entities'', RawOther)]" and v = "RawList []"
        and post = "[]" and es = "[]" and key = "Name ''sum''", THEN conjunct1]
  obtain k w where
    f: "find (fails_check [])
          ([(''ignore_entities'', RawOther)] @ (''bogus_option'', RawList []) # []) = Some (k, w)"
    and r: "init_option_dict (Name ''sum'')
          ([(''ignore_entities'', RawOther)] @ (''bogus_option'', RawList []) # []) [] =
        (if k \<in> {''ignore_entities'', ''include_entities'', ''ignore_variables'',
                  ''include_variables'', ''ignore_groupby_entities'',
                  ''include_groupby_entities'', ''ignore_groupby_variables'',
                  ''include_groupby_variables''}
         then Inl (IncorrectTypeFormatting k (Name ''sum''))
         else Inl (UnrecognizedOption k (Name ''sum'')))"
    by (elim exE conjE) (rule that)
  have "find (fails_check [])
          ([(''ignore_entities'', RawOther)] @ (''bogus_option'', RawList []) # []) =
        Some (''ignore_entities'', RawOther)"
    by (simp add: fails_check_def get_primitive_options_def list_entity_check_def)
  with f have k: "k = ''ignore_entities''" by simp
  have two: "init_option_dict (Name ''sum'')
     ([(''ignore_entities'', RawOther)] @ (''bogus_option'', RawList []) # []) [] =
   Inl (IncorrectTypeFormatting ''ignore_entities'' (Name ''sum''))"
    unfolding r k by simp
  show ?thesis
    by (intro conjI) (rule one, rule two)
qed

text \<open>
  C7 as stated fails when an ill-formed value stands before the unrecognised key: the
  error is "Incorrect type formatting".
\<close>

theorem init_option_dict_unrecognized_counterexample:
  "init_option_dict (Name ''sum'') [(''ignore_entities'', RawOther), (''bogus_option'', RawList [])] [] =
     Inl (IncorrectTypeFormatting ''ignore_entities'' (Name ''sum'')) \<and>
   init_option_dict (Name ''sum'') [(''ignore_entities'', RawOther), (''bogus_option'', RawList [])] [] \<noteq>
     Inl (UnrecognizedOption ''bogus_option'' (Name ''sum''))"
  by (simp add: init_option_dict_def get_primitive_options_def list_entity_check_def)






lemma check_independent_of_snapshot:
  assumes "map_of get_primitive_options k = Some check"
  shows "fst (check v es) = fst (check v es')"
proof -
  from assms have "check = list_entity_check \<or> check = dict_to_list_variable_check"
    by (auto simp add: get_primitive_options_def split: if_splits)
  then show ?thesis
    by (auto simp add: list_entity_check_def dict_to_list_variable_check_def
        split: raw_value.splits)
qed

lemma init_option_loop_accepts:
  "init_option_loop key d es acc = Inr r \<Longrightarrow>
   (\<forall>(k, v) \<in> set d. \<exists>check. map_of get_primitive_options k = Some check \<and> fst (check v es)) \<and>
   r = fold (\<lambda>(k, v). store_option k v) d acc"
proof (induction d arbitrary: acc)
  case Nil
  then show ?case by simp
next
  case (Cons p d)
  obtain k v where p: "p = (k, v)" by (cases p)
  from Cons.prems obtain check where c: "map_of get_primitive_options k = Some check"
    by (cases "map_of get_primitive_options k") (simp_all add: p)
  from Cons.prems c have f: "fst (check v es)"
    by (cases "fst (check v es)") (simp_all add: p)
  from Cons.prems c f have "init_option_loop key d es (store_option k v acc) = Inr r"
    by (simp add: p)
  then have "(\<forall>(k, v) \<in> set d. \<exists>check. map_of get_primitive_options k = Some check \<and> fst (check v es)) \<and>
   r = fold (\<lambda>(k, v). store_option k v) d (store_option k v acc)"
    by (rule Cons.IH)
  then show ?case using c f by (simp add: p)
qed

lemma init_option_loop_accepted:
  "(\<forall>(k, v) \<in> set d. \<exists>check. map_of get_primitive_options k = Some check \<and> fst (check v es)) \<Longrightarrow>
   init_option_loop key d es acc = Inr (fold (\<lambda>(k, v). store_option k v) d acc)"
proof (induction d arbitrary: acc)
  case Nil
  then show ?case by simp
next
  case (Cons p d)
  obtain k v where p: "p = (k, v)" by (cases p)
  from Cons.prems obtain check where c: "map_of get_primitive_options k = Some check" "fst (check v es)"
    by (auto simp add: p)
  from Cons.prems have "\<forall>(k, v) \<in> set d. \<exists>check. map_of get_primitive_options k = Some check \<and> fst (check v es)"
    by simp
  then have "init_option_loop key d es (store_option k v acc) =
      Inr (fold (\<lambda>(k, v). store_option k v) d (store_option k v acc))"
    by (rule Cons.IH)
  then show ?case using c by (simp add: p)
qed

lemma set_entity_option_fields:
  "ignore_entities (set_entity_option k S d) =
     (if k = ''ignore_entities'' then Some S else ignore_entities d)"
  "include_entities (set_entity_option k S d) =
     (if k = ''include_entities'' then Some S else include_entities d)"
  "ignore_groupby_entities (set_entity_option k S d) =
     (if k = ''ignore_groupby_entities'' then Some S else ignore_groupby_entities d)"
  "include_groupby_entities (set_entity_option k S d) =
     (if k = ''include_groupby_entities'' then Some S else include_groupby_entities d)"
  "ignore_variables (set_entity_option k S d) = ignore_variables d"
  "include_variables (set_entity_option k S d) = include_variables d"
  "ignore_groupby_variables (set_entity_option k S d) = ignore_groupby_variables d"
  "include_groupby_variables (set_entity_option k S d) = include_groupby_variables d"
  "option_dict.more (set_entity_option k S d) = option_dict.more d"
  by (simp_all add: set_entity_option_def)

lemma set_variable_option_fields:
  "ignore_variables (set_variable_option k S d) =
     (if k = ''ignore_variables'' then Some S else ignore_variables d)"
  "include_variables (set_variable_option k S d) =
     (if k = ''include_variables'' then Some S else include_variables d)"
  "ignore_groupby_variables (set_variable_option k S d) =
     (if k = ''ignore_groupby_variables'' then Some S else ignore_groupby_variables d)"
  "include_groupby_variables (set_variable_option k S d) =
     (if k = ''include_groupby_variables'' then Some S else include_groupby_variables d)"
  "ignore_entities (set_variable_option k S d) = ignore_entities d"
  "include_entities (set_variable_option k S d) = include_entities d"
  "ignore_groupby_entities (set_variable_option k S d) = ignore_groupby_entities d"
  "include_groupby_entities (set_variable_option k S d) = include_groupby_entities d"
  "option_dict.more (set_variable_option k S d) = option_dict.more d"
  by (simp_all add: set_variable_option_def)


lemma set_entity_option_commute:
  assumes "k \<noteq> k'"
  shows "set_entity_option k S (set_entity_option k' S' d) =
     set_entity_option k' S' (set_entity_option k S d)"
  using assms by (intro option_dict.equality) (auto simp add: set_entity_option_fields)

lemma set_variable_option_commute:
  assumes "k \<noteq> k'"
  shows "set_variable_option k S (set_variable_option k' S' d) =
     set_variable_option k' S' (set_variable_option k S d)"
  using assms by (intro option_dict.equality) (auto simp add: set_variable_option_fields)

lemma set_entity_variable_commute:
  "set_entity_option k S (set_variable_option k' S' d) =
     set_variable_option k' S' (set_entity_option k S d)"
  by (intro option_dict.equality)
     (simp_all add: set_variable_option_fields set_entity_option_fields)

lemma store_option_commute:
  assumes "k \<noteq> k'"
  shows "store_option k v (store_option k' v' d) = store_option k' v' (store_option k v d)"
  using assms
  by (cases v; cases v')
     (simp_all add: store_option_def set_entity_option_commute set_variable_option_commute
        set_entity_variable_commute)


lemma fold_store_option_permuted:
  assumes "distinct (map fst d)" and "distinct (map fst d')" and "set d' = set d"
  shows "fold (\<lambda>(k, v). store_option k v) d' acc = fold (\<lambda>(k, v). store_option k v) d acc"
proof -
  have dd: "distinct d" "distinct d'"
    using assms(1,2) by (simp_all add: distinct_map)
  have m: "mset d' = mset d"
    using dd assms(3) by (simp add: set_eq_iff_mset_eq_distinct)
  have c: "(\<lambda>(k, v). store_option k v) x \<circ> (\<lambda>(k, v). store_option k v) y =
           (\<lambda>(k, v). store_option k v) y \<circ> (\<lambda>(k, v). store_option k v) x"
    if "x \<in> set d'" "y \<in> set d'" for x y
  proof (cases "x = y")
    case True
    then show ?thesis by simp
  next
    case False
    obtain k v where x: "x = (k, v)" by (cases x)
    obtain k' v' where y: "y = (k', v')" by (cases y)
    have "k \<noteq> k'"
    proof
      assume "k = k'"
      with that x y assms(2) have "v = v'"
        by (metis eq_key_imp_eq_value)
      with \<open>k = k'\<close> x y False show False by simp
    qed
    then show ?thesis
      by (simp add: x y fun_eq_iff store_option_commute)
  qed
  have "fold (\<lambda>(k, v). store_option k v) d' = fold (\<lambda>(k, v). store_option k v) d"
    using c m by (rule fold_multiset_equiv)
  then show ?thesis by simp
qed

text \<open>
  Claim C9: normalisation is deterministic. When a raw option dict \<open>d\<close> is valid, that
  is, normalising it returns a record \<open>r\<close>, then normalising it again returns the same
  record, for whichever primitive key and entity snapshot the call is made; and so does
  normalising any dict \<open>d'\<close> that is equal to \<open>d\<close> as a Python dict, that is, has the
  same items, in whatever insertion order.
\<close>

theorem init_option_dict_deterministic:
  assumes "init_option_dict key d es = Inr r"
  shows "init_option_dict key' d es' = Inr r \<and>
         (\<forall>d'. distinct (map fst d) \<and> distinct (map fst d') \<and> set d' = set d \<longrightarrow>
               init_option_dict key' d' es' = Inr r)"
proof -
  from assms obtain r0 where l: "init_option_loop key d es empty_option_dict = Inr r0"
    and r: "r = init_defaults r0"
    by (auto simp add: init_option_dict_def split: sum.splits)
  from l have acc: "\<forall>(k, v) \<in> set d. \<exists>check. map_of get_primitive_options k = Some check \<and> fst (check v es)"
    and r0: "r0 = fold (\<lambda>(k, v). store_option k v) d empty_option_dict"
    using init_option_loop_accepts by blast+
  have acc': "\<forall>(k, v) \<in> set d. \<exists>check. map_of get_primitive_options k = Some check \<and> fst (check v es')"
    using acc check_independent_of_snapshot [where es = es and es' = es'] by fastforce
  have one: "init_option_dict key' d es' = Inr r"
    using init_option_loop_accepted [OF acc', of key' empty_option_dict]
    by (simp add: init_option_dict_def r r0)
  have two: "init_option_dict key' d' es' = Inr r"
    if h: "distinct (map fst d) \<and> distinct (map fst d') \<and> set d' = set d" for d'
  proof -
    from h acc' have a: "\<forall>(k, v) \<in> set d'. \<exists>check. map_of get_primitive_options k = Some check \<and> fst (check v es')"
      by simp
    have f: "fold (\<lambda>(k, v). store_option k v) d' empty_option_dict = r0"
      unfolding r0 using h by (intro fold_store_option_permuted) simp_all
    show ?thesis
      using init_option_loop_accepted [OF a, of key' empty_option_dict]
      by (simp add: init_option_dict_def r f)
  qed
  from one two show ?thesis by blast
qed

text \<open>
  C9 at a concrete dict and at the dict with the same two items in the other order,
  normalised for another primitive key and snapshot.
\<close>

theorem init_option_dict_deterministic_witness:
  "init_option_dict (Name ''sum'')
     [(''include_variables'', RawDict [(''customers'', RawList [''age''])]),
      (''ignore_entities'', RawList [''sessions''])]
     [(''customers'', [''id'', ''age''])] =
   Inr (normal_options\<lparr>ignore_entities := Some {''sessions''},
                       include_variables := Some [(''customers'', {''age''})]\<rparr>) \<and>
   init_option_dict (Names [''sum'', ''mean''])
     [(''ignore_entities'', RawList [''sessions'']),
      (''include_variables'', RawDict [(''customers'', RawList [''age''])])]
     [] =
   Inr (normal_options\<lparr>ignore_entities := Some {''sessions''},
                       include_variables := Some [(''customers'', {''age''})]\<rparr>)"
proof -
  have a: "init_option_dict (Name ''sum'')
     [(''include_variables'', RawDict [(''customers'', RawList [''age''])]),
      (''ignore_entities'', RawList [''sessions''])]
     [(''customers'', [''id'', ''age''])] =
   Inr (normal_options\<lparr>ignore_entities := Some {''sessions''},
                       include_variables := Some [(''customers'', {''age''})]\<rparr>)"
    by (simp add: init_option_dict_def get_primitive_options_def list_entity_check_def
        dict_to_list_variable_check_def store_option_def set_entity_option_def
        set_variable_option_def init_defaults_def example_defs)
  have h: "distinct (map fst [(''include_variables'', RawDict [(''customers'', RawList [''age''])]),
      (''ignore_entities'', RawList [''sessions''])]) \<and>
     distinct (map fst [(''ignore_entities'', RawList [''sessions'']),
      (''include_variables'', RawDict [(''customers'', RawList [''age''])])]) \<and>
     set [(''ignore_entities'', RawList [''sessions'']),
      (''include_variables'', RawDict [(''customers'', RawList [''age''])])] =
     set [(''include_variables'', RawDict [(''customers'', RawList [''age''])]),
      (''ignore_entities'', RawList [''sessions''])]"
    by auto
  show ?thesis
    using init_option_dict_deterministic [OF a, of "Names [''sum'', ''mean'']" "[]"] h a
    by blast
qed

section \<open>Properties of the reconciler\<close>

lemma included_of_ignore_entities [simp]:
  "included_of (option\<lparr>ignore_entities := x\<rparr>) = included_of option"
  by (simp add: included_of_def)

lemma included_entities_with_global_ignore [simp]:
  "included_entities (with_global_ignore G options) = included_entities options"
  by (simp add: included_entities_def with_global_ignore_def comp_def)

lemma with_global_ignore_idem:
  "with_global_ignore G (with_global_ignore G options) = with_global_ignore G options"
proof -
  have "with_global_ignore G (with_global_ignore G options) =
      map (\<lambda>option. option\<lparr>ignore_entities :=
            map_option (\<lambda>ign. ign \<union> (G - included_entities options)) (ignore_entities option)\<rparr>)
       (with_global_ignore G options)"
    unfolding with_global_ignore_def [of G "with_global_ignore G options"] by simp
  also have "\<dots> = with_global_ignore G options"
    by (simp add: with_global_ignore_def option.map_comp comp_def Un_assoc)
  finally show ?thesis .
qed

lemma length_with_global_ignore [simp]:
  "length (with_global_ignore G options) = length options"
  by (simp add: with_global_ignore_def)

lemma add_ignore_entities_result:
  "add_ignore_entities extra options = Inr options1 \<Longrightarrow>
   options1 = map (\<lambda>option. option\<lparr>ignore_entities :=
                  map_option (\<lambda>ign. ign \<union> extra) (ignore_entities option)\<rparr>) options \<and>
   (\<forall>option \<in> set options. ignore_entities option \<noteq> None)"
proof (induction options arbitrary: options1)
  case Nil
  then show ?case by simp
next
  case (Cons option options)
  from Cons.prems obtain ign where i: "ignore_entities option = Some ign"
    by (cases "ignore_entities option") simp_all
  from Cons.prems i obtain rest where r: "add_ignore_entities extra options = Inr rest"
    and o: "options1 = option\<lparr>ignore_entities := Some (ign \<union> extra)\<rparr> # rest"
    by (cases "add_ignore_entities extra options") simp_all
  from Cons.IH [OF r] show ?case
    by (simp add: o i)
qed

lemma reconcile_variables_frame:
  "reconcile_variables entity ignore_vars included option s = Inr s1 \<Longrightarrow>
   option_lists s1 = option_lists s \<and> length (var_dicts s1) = length (var_dicts s)"
  by (auto simp add: reconcile_variables_def Let_def split: option.splits if_splits)

lemma options_loop_frame:
  "options_loop entity ignore_vars included options s = Inr s1 \<Longrightarrow>
   option_lists s1 = option_lists s \<and> length (var_dicts s1) = length (var_dicts s)"
proof (induction options arbitrary: s)
  case Nil
  then show ?case by simp
next
  case (Cons option options)
  from Cons.prems obtain s0 where
    a: "reconcile_variables entity ignore_vars included option s = Inr s0" and
    b: "options_loop entity ignore_vars included options s0 = Inr s1"
    by (cases "reconcile_variables entity ignore_vars included option s") simp_all
  from reconcile_variables_frame [OF a] Cons.IH [OF b] show ?case by simp
qed

lemma items_loop_frame:
  "items_loop iv n k included options s = Inr s1 \<Longrightarrow>
   option_lists s1 = option_lists s \<and> length (var_dicts s1) = length (var_dicts s)"
proof (induction k arbitrary: s)
  case 0
  then show ?case by (simp split: if_splits)
next
  case (Suc k)
  obtain entity ignore_vars where d: "var_dicts s ! iv ! (n - Suc k) = (entity, ignore_vars)"
    by (cases "var_dicts s ! iv ! (n - Suc k)")
  from Suc.prems d obtain s0 where
    a: "options_loop entity ignore_vars included options s = Inr s0" and
    b: "items_loop iv n k included options s0 = Inr s1"
    by (cases "options_loop entity ignore_vars included options s")
       (simp_all add: Let_def split: if_splits)
  from options_loop_frame [OF a] Suc.IH [OF b] show ?case by simp
qed

lemma reconcile_result:
  assumes "reconcile G iv a (g, s) = Inr (g1, s1)"
  shows "g1 = g - included_entities (option_lists s ! a)"
    and "option_lists s1 = (option_lists s)[a := with_global_ignore G (option_lists s ! a)]"
    and "length (var_dicts s1) = length (var_dicts s)"
proof -
  let ?options = "option_lists s ! a"
  let ?included = "included_entities ?options"
  from assms obtain options1 where
    a: "add_ignore_entities (G - ?included) ?options = Inr options1"
    by (cases "add_ignore_entities (G - ?included) ?options")
       (simp_all add: reconcile_def Let_def)
  let ?s0 = "s\<lparr>option_lists := (option_lists s)[a := options1]\<rparr>"
  from assms a have
    b: "items_loop iv (length (var_dicts ?s0 ! iv)) (length (var_dicts ?s0 ! iv)) ?included options1 ?s0 = Inr s1"
    and g: "g1 = g - ?included"
    by (simp_all add: reconcile_def Let_def split: sum.splits)
  from add_ignore_entities_result [OF a] have o: "options1 = with_global_ignore G ?options"
    by (simp add: with_global_ignore_def)
  from items_loop_frame [OF b] o
  show "option_lists s1 = (option_lists s)[a := with_global_ignore G (option_lists s ! a)]"
    and "length (var_dicts s1) = length (var_dicts s)"
    by simp_all
  from g show "g1 = g - included_entities (option_lists s ! a)" .
qed

lemma update_same_item:
  assumes "distinct (map fst D)" and "(entity, vs) \<in> set D"
  shows "map_of D entity = Some vs" and "AList.update entity (vs \<union> vs) D = D"
proof -
  show m: "map_of D entity = Some vs"
    using assms by simp
  then show "AList.update entity (vs \<union> vs) D = D"
    by (simp add: update_triv)
qed

lemma reconcile_variables_caller:
  assumes "reconcile_variables entity ignore_vars included option s = Inr s1"
    and "var_dicts s ! iv = D" and "distinct (map fst D)" and "(entity, ignore_vars) \<in> set D"
  shows "var_dicts s1 ! iv = D"
proof -
  from assms(1) obtain a where a: "ignore_variables option = Some a"
    by (cases "ignore_variables option") (simp_all add: reconcile_variables_def)
  show ?thesis
  proof (cases "a = iv")
    case False
    with assms(1,2) a show ?thesis
      by (auto simp add: reconcile_variables_def Let_def split: option.splits if_splits)
  next
    case True
    from update_same_item [OF assms(3,4)]
    have m: "map_of D entity = Some ignore_vars"
      and u: "AList.update entity (ignore_vars \<union> ignore_vars) D = D"
      by simp_all
    from assms(1) a True assms(2) m u
    have "var_dicts s1 = (var_dicts s)[iv := D]"
      by (auto simp add: reconcile_variables_def Let_def)
    with assms(2) show ?thesis
      by (metis list_update_id)
  qed
qed

lemma options_loop_caller:
  assumes "options_loop entity ignore_vars included options s = Inr s1"
    and "var_dicts s ! iv = D" and "distinct (map fst D)" and "(entity, ignore_vars) \<in> set D"
  shows "var_dicts s1 ! iv = D"
  using assms(1,2)
proof (induction options arbitrary: s)
  case Nil
  then show ?case by simp
next
  case (Cons option options)
  from Cons.prems(1) obtain s0 where
    a: "reconcile_variables entity ignore_vars included option s = Inr s0" and
    b: "options_loop entity ignore_vars included options s0 = Inr s1"
    by (cases "reconcile_variables entity ignore_vars included option s") simp_all
  have "var_dicts s0 ! iv = D"
    using a Cons.prems(2) assms(3,4) by (rule reconcile_variables_caller)
  with b show ?case by (rule Cons.IH)
qed

lemma items_loop_caller:
  assumes "items_loop iv n k included options s = Inr s1"
    and "var_dicts s ! iv = D" and "distinct (map fst D)" and "k \<le> n" and "n = length D"
  shows "var_dicts s1 ! iv = D"
  using assms(1,2,4)
proof (induction k arbitrary: s)
  case 0
  then show ?case by (simp split: if_splits)
next
  case (Suc k)
  obtain entity ignore_vars where d: "D ! (n - Suc k) = (entity, ignore_vars)"
    by (cases "D ! (n - Suc k)")
  from Suc.prems(3) assms(5) have "n - Suc k < length D" by simp
  with d have mem: "(entity, ignore_vars) \<in> set D"
    by (metis nth_mem)
  from Suc.prems(1,2) d obtain s0 where
    a: "options_loop entity ignore_vars included options s = Inr s0" and
    b: "items_loop iv n k included options s0 = Inr s1"
    by (cases "options_loop entity ignore_vars included options s")
       (simp_all add: Let_def split: if_splits)
  have "var_dicts s0 ! iv = D"
    using a Suc.prems(2) assms(3) mem by (rule options_loop_caller)
  moreover from Suc.prems(3) have "k \<le> n" by simp
  ultimately show ?case using b Suc.IH by blast
qed

lemma reconcile_caller:
  assumes "reconcile G iv a (g, s) = Inr (g1, s1)"
    and "var_dicts s ! iv = D" and "distinct (map fst D)"
  shows "var_dicts s1 ! iv = D"
proof -
  let ?options = "option_lists s ! a"
  let ?included = "included_entities ?options"
  from assms(1) obtain options1 where
    a: "add_ignore_entities (G - ?included) ?options = Inr options1"
    by (cases "add_ignore_entities (G - ?included) ?options")
       (simp_all add: reconcile_def Let_def)
  let ?s0 = "s\<lparr>option_lists := (option_lists s)[a := options1]\<rparr>"
  from assms(1) a have
    b: "items_loop iv (length (var_dicts ?s0 ! iv)) (length (var_dicts ?s0 ! iv)) ?included options1 ?s0 = Inr s1"
    by (simp_all add: reconcile_def Let_def split: sum.splits)
  have v: "var_dicts ?s0 ! iv = D" using assms(2) by simp
  show ?thesis
    using b v assms(3) by (rule items_loop_caller) (simp_all add: assms(2))
qed

lemma primitives_loop_caller:
  assumes "primitives_loop ps G iv (t, g, s) = Inr (t1, g1, s1)"
    and "var_dicts s ! iv = D" and "distinct (map fst D)"
  shows "var_dicts s1 ! iv = D"
  using assms(1,2)
proof (induction ps arbitrary: t g s)
  case Nil
  then show ?case by simp
next
  case (Cons p ps)
  show ?case
  proof (cases "map_of t (primitive_name p)")
    case None
    with Cons.prems(1) have
      "primitives_loop ps G iv
         (AList.update (primitive_name p) (length (option_lists s)) t, g,
          s\<lparr>option_lists := option_lists s @ [[default_options G iv]]\<rparr>) = Inr (t1, g1, s1)"
      by simp
    moreover have "var_dicts (s\<lparr>option_lists := option_lists s @ [[default_options G iv]]\<rparr>) ! iv = D"
      using Cons.prems(2) by simp
    ultimately show ?thesis by (rule Cons.IH)
  next
    case (Some a)
    with Cons.prems(1) obtain g0 s0 where
      r: "reconcile G iv a (g, s) = Inr (g0, s0)" and
      l: "primitives_loop ps G iv (t, g0, s0) = Inr (t1, g1, s1)"
      by (cases "reconcile G iv a (g, s)") auto
    have "var_dicts s0 ! iv = D"
      using r Cons.prems(2) assms(3) by (rule reconcile_caller)
    with l show ?thesis by (rule Cons.IH)
  qed
qed

lemma map_of_update_table:
  "map_of (AList.update k v t) q = (if q = k then Some v else map_of t q)"
  by (simp add: update_conv')

lemma primitives_loop_table:
  assumes "primitives_loop ps G iv (t, g, s) = Inr (t1, g1, s1)" and "table_ok t s"
  shows "table_ok t1 s1 \<and> length (option_lists s) \<le> length (option_lists s1) \<and>
         (\<forall>q b. map_of t q = Some b \<longrightarrow> map_of t1 q = Some b)"
  using assms
proof (induction ps arbitrary: t g s)
  case Nil
  then show ?case by simp
next
  case (Cons p ps)
  show ?case
  proof (cases "map_of t (primitive_name p)")
    case None
    let ?t = "AList.update (primitive_name p) (length (option_lists s)) t"
    let ?s = "s\<lparr>option_lists := option_lists s @ [[default_options G iv]]\<rparr>"
    from None Cons.prems(1) have l: "primitives_loop ps G iv (?t, g, ?s) = Inr (t1, g1, s1)"
      by simp
    have ok: "table_ok ?t ?s"
      using Cons.prems(2) by (auto simp add: table_ok_def map_of_update_table less_Suc_eq)
    from Cons.IH [OF l ok] have ih: "table_ok t1 s1"
      "length (option_lists ?s) \<le> length (option_lists s1)"
      "\<forall>q b. map_of ?t q = Some b \<longrightarrow> map_of t1 q = Some b"
      by simp_all
    have "\<forall>q b. map_of t q = Some b \<longrightarrow> map_of t1 q = Some b"
    proof (intro allI impI)
      fix q b assume m: "map_of t q = Some b"
      with None have "q \<noteq> primitive_name p" by auto
      with m have "map_of ?t q = Some b" by (simp add: map_of_update_table)
      with ih(3) show "map_of t1 q = Some b" by blast
    qed
    with ih(1,2) show ?thesis by simp
  next
    case (Some a)
    with Cons.prems(1) obtain g0 s0 where
      r: "reconcile G iv a (g, s) = Inr (g0, s0)" and
      l: "primitives_loop ps G iv (t, g0, s0) = Inr (t1, g1, s1)"
      by (cases "reconcile G iv a (g, s)") auto
    from reconcile_result(2) [OF r] have len: "length (option_lists s0) = length (option_lists s)"
      by simp
    with Cons.prems(2) have ok: "table_ok t s0" by (simp add: table_ok_def)
    from Cons.IH [OF l ok] len show ?thesis by simp
  qed
qed

lemma primitives_loop_cells:
  assumes "primitives_loop ps G iv (t, g, s) = Inr (t1, g1, s1)" and "table_ok t s"
    and "a < length (option_lists s)"
  shows "option_lists s1 ! a =
           (if \<exists>p \<in> set ps. map_of t (primitive_name p) = Some a
            then with_global_ignore G (option_lists s ! a) else option_lists s ! a)"
  using assms
proof (induction ps arbitrary: t g s)
  case Nil
  then show ?case by simp
next
  case (Cons p ps)
  show ?case
  proof (cases "map_of t (primitive_name p)")
    case None
    let ?t = "AList.update (primitive_name p) (length (option_lists s)) t"
    let ?s = "s\<lparr>option_lists := option_lists s @ [[default_options G iv]]\<rparr>"
    from None Cons.prems(1) have l: "primitives_loop ps G iv (?t, g, ?s) = Inr (t1, g1, s1)"
      by simp
    have ok: "table_ok ?t ?s"
      using Cons.prems(2) by (auto simp add: table_ok_def map_of_update_table less_Suc_eq)
    have a: "a < length (option_lists ?s)" using Cons.prems(3) by simp
    have same: "option_lists ?s ! a = option_lists s ! a"
      using Cons.prems(3) by (simp add: nth_append)
    have v: "map_of ?t q = Some a \<longleftrightarrow> map_of t q = Some a" for q
      using Cons.prems(3) None by (auto simp add: map_of_update_table)
    have "(\<exists>q \<in> set (p # ps). map_of t (primitive_name q) = Some a) \<longleftrightarrow>
          (\<exists>q \<in> set ps. map_of ?t (primitive_name q) = Some a)"
      using None by (simp add: v)
    with Cons.IH [OF l ok a] same show ?thesis by simp
  next
    case (Some a0)
    with Cons.prems(1) obtain g0 s0 where
      r: "reconcile G iv a0 (g, s) = Inr (g0, s0)" and
      l: "primitives_loop ps G iv (t, g0, s0) = Inr (t1, g1, s1)"
      by (cases "reconcile G iv a0 (g, s)") auto
    note upd = reconcile_result(2) [OF r]
    from upd have len: "length (option_lists s0) = length (option_lists s)"
      by simp
    with Cons.prems(2) have ok: "table_ok t s0" by (simp add: table_ok_def)
    from len Cons.prems(3) have a: "a < length (option_lists s0)" by simp
    note ih = Cons.IH [OF l ok a]
    show ?thesis
    proof (cases "a = a0")
      case True
      with upd Cons.prems(3) have "option_lists s0 ! a = with_global_ignore G (option_lists s ! a)"
        by simp
      with ih True Some show ?thesis
        by (simp add: with_global_ignore_idem)
    next
      case False
      with upd have "option_lists s0 ! a = option_lists s ! a" by simp
      with ih False Some show ?thesis by simp
    qed
  qed
qed

lemma included_entities_default [simp]:
  "included_entities [default_options G iv] = {}"
  by (simp add: included_entities_def included_of_def default_options_def empty_option_dict_def)

lemma with_global_ignore_default [simp]:
  "with_global_ignore G [default_options G iv] = [default_options G iv]"
  by (simp add: with_global_ignore_def included_entities_def included_of_def
      default_options_def empty_option_dict_def)

lemma primitives_loop_residual:
  assumes "primitives_loop ps G iv (t, g, s) = Inr (t1, g1, s1)" and "table_ok t s"
  shows "g1 = g - explicitly_included t s ps"
  using assms
proof (induction ps arbitrary: t g s)
  case Nil
  then show ?case by (simp add: explicitly_included_def)
next
  case (Cons p ps)
  show ?case
  proof (cases "map_of t (primitive_name p)")
    case None
    let ?t = "AList.update (primitive_name p) (length (option_lists s)) t"
    let ?s = "s\<lparr>option_lists := option_lists s @ [[default_options G iv]]\<rparr>"
    from None Cons.prems(1) have l: "primitives_loop ps G iv (?t, g, ?s) = Inr (t1, g1, s1)"
      by simp
    have ok: "table_ok ?t ?s"
      using Cons.prems(2) by (auto simp add: table_ok_def map_of_update_table less_Suc_eq)
    have each: "(case map_of ?t (primitive_name q) of None \<Rightarrow> {}
                 | Some a \<Rightarrow> included_entities (option_lists ?s ! a)) =
                (case map_of t (primitive_name q) of None \<Rightarrow> {}
                 | Some a \<Rightarrow> included_entities (option_lists s ! a))" for q
    proof (cases "primitive_name q = primitive_name p")
      case True
      with None show ?thesis by (simp add: map_of_update_table)
    next
      case False
      show ?thesis
      proof (cases "map_of t (primitive_name q)")
        case None
        with False show ?thesis by (simp add: map_of_update_table)
      next
        case (Some a)
        with Cons.prems(2) have "a < length (option_lists s)" by (auto simp add: table_ok_def)
        with Some False show ?thesis by (simp add: map_of_update_table nth_append)
      qed
    qed
    have "explicitly_included ?t ?s ps = explicitly_included t s (p # ps)"
      unfolding explicitly_included_def using None by (simp add: each)
    with Cons.IH [OF l ok] show ?thesis by simp
  next
    case (Some a0)
    with Cons.prems(1) obtain g0 s0 where
      r: "reconcile G iv a0 (g, s) = Inr (g0, s0)" and
      l: "primitives_loop ps G iv (t, g0, s0) = Inr (t1, g1, s1)"
      by (cases "reconcile G iv a0 (g, s)") auto
    note upd = reconcile_result(2) [OF r]
    from upd have len: "length (option_lists s0) = length (option_lists s)"
      by simp
    with Cons.prems(2) have ok: "table_ok t s0" by (simp add: table_ok_def)
    have inc: "included_entities (option_lists s0 ! a) = included_entities (option_lists s ! a)" for a
    proof (cases "a0 < length (option_lists s)")
      case True
      with upd show ?thesis by (cases "a = a0") simp_all
    next
      case False
      with upd show ?thesis by (simp add: list_update_beyond)
    qed
    have e: "explicitly_included t s0 ps = explicitly_included t s ps"
      by (simp add: explicitly_included_def inc cong: option.case_cong)
    have "explicitly_included t s (p # ps) =
        included_entities (option_lists s ! a0) \<union> explicitly_included t s ps"
      by (simp add: explicitly_included_def Some)
    with Cons.IH [OF l ok] e reconcile_result(1) [OF r] show ?thesis
      by auto
  qed
qed

lemma alloc_option_dict_frame:
  "alloc_option_dict d s = (r, s1) \<Longrightarrow>
   option_lists s1 = option_lists s \<and> (\<exists>extra. var_dicts s1 = var_dicts s @ extra)"
  by (auto simp add: alloc_option_dict_def split: option.splits)

lemma alloc_option_dicts_frame:
  "alloc_option_dicts ds s = (rs, s1) \<Longrightarrow>
   option_lists s1 = option_lists s \<and> (\<exists>extra. var_dicts s1 = var_dicts s @ extra)"
proof (induction ds arbitrary: s rs)
  case Nil
  then show ?case by simp
next
  case (Cons d ds)
  obtain r s0 where a: "alloc_option_dict d s = (r, s0)" by (cases "alloc_option_dict d s")
  obtain rs0 s2 where b: "alloc_option_dicts ds s0 = (rs0, s2)" by (cases "alloc_option_dicts ds s0")
  from Cons.prems a b have "s2 = s1" by simp
  with b have b1: "alloc_option_dicts ds s0 = (rs0, s1)" by simp
  from alloc_option_dict_frame [OF a] Cons.IH [OF b1] show ?case by auto
qed

lemma alloc_option_list_frame:
  assumes "alloc_option_list ds s = (a, s1)"
  shows "a = length (option_lists s)" and "\<exists>rs. option_lists s1 = option_lists s @ [rs]"
    and "\<exists>extra. var_dicts s1 = var_dicts s @ extra"
proof -
  obtain rs s0 where b: "alloc_option_dicts ds s = (rs, s0)" by (cases "alloc_option_dicts ds s")
  from assms b have a: "a = length (option_lists s0)"
    and s1: "s1 = s0\<lparr>option_lists := option_lists s0 @ [rs]\<rparr>"
    by (simp_all add: alloc_option_list_def)
  from alloc_option_dicts_frame [OF b] a s1
  show "a = length (option_lists s)" and "\<exists>rs. option_lists s1 = option_lists s @ [rs]"
    and "\<exists>extra. var_dicts s1 = var_dicts s @ extra"
    by simp_all
qed

lemma assign_options_table:
  "assign_options names a t = Inr t1 \<Longrightarrow> map_of t1 q = Some b \<Longrightarrow> map_of t q = Some b \<or> b = a"
proof (induction names arbitrary: t)
  case Nil
  then show ?case by simp
next
  case (Cons n names)
  from Cons.prems(1) have none: "map_of t n = None"
    and l: "assign_options names a (AList.update n a t) = Inr t1"
    by (cases "map_of t n"; simp)+
  from Cons.IH [OF l Cons.prems(2)] show ?case
    by (auto simp add: map_of_update_table split: if_splits)
qed

lemma init_primitive_loop_table:
  assumes "init_primitive_loop agg_prims trans_prims entries es (t, s) = Inr (t1, s1)"
    and "table_ok t s"
  shows "table_ok t1 s1 \<and> (\<exists>extra. var_dicts s1 = var_dicts s @ extra)"
  using assms
proof (induction entries arbitrary: t s)
  case Nil
  then show ?case by simp
next
  case (Cons entry entries)
  obtain k opts where e: "entry = (k, opts)" by (cases entry)
  from Cons.prems(1) obtain ds where i: "init_options agg_prims trans_prims k opts es = Inr ds"
    by (cases "init_options agg_prims trans_prims k opts es") (simp_all add: e)
  obtain a s0 where al: "alloc_option_list ds s = (a, s0)" by (cases "alloc_option_list ds s")
  from Cons.prems(1) i al obtain t0 where as: "assign_options (key_names k) a t = Inr t0"
    and l: "init_primitive_loop agg_prims trans_prims entries es (t0, s0) = Inr (t1, s1)"
    by (cases "assign_options (key_names k) a t") (simp_all add: e)
  note fr = alloc_option_list_frame [OF al]
  have ok: "table_ok t0 s0"
    unfolding table_ok_def
  proof (intro allI impI)
    fix q b assume "map_of t0 q = Some b"
    from assign_options_table [OF as this] have "map_of t q = Some b \<or> b = a" .
    with Cons.prems(2) fr(1,2) show "b < length (option_lists s0)"
      by (auto simp add: table_ok_def less_Suc_eq)
  qed
  from Cons.IH [OF l ok] fr(3) show ?case by auto
qed

lemma primitives_loop_default:
  assumes "primitives_loop ps G iv (t, g, s) = Inr (t1, g1, s1)" and "table_ok t s"
    and "p \<in> set ps" and "map_of t (primitive_name p) = None"
  shows "\<exists>a. map_of t1 (primitive_name p) = Some a \<and> option_lists s1 ! a = [default_options G iv]"
  using assms
proof (induction ps arbitrary: t g s)
  case Nil
  then show ?case by simp
next
  case (Cons q ps)
  show ?case
  proof (cases "map_of t (primitive_name q)")
    case None
    let ?a = "length (option_lists s)"
    let ?t = "AList.update (primitive_name q) ?a t"
    let ?s = "s\<lparr>option_lists := option_lists s @ [[default_options G iv]]\<rparr>"
    from None Cons.prems(1) have l: "primitives_loop ps G iv (?t, g, ?s) = Inr (t1, g1, s1)"
      by simp
    have ok: "table_ok ?t ?s"
      using Cons.prems(2) by (auto simp add: table_ok_def map_of_update_table less_Suc_eq)
    show ?thesis
    proof (cases "primitive_name q = primitive_name p")
      case True
      then have m: "map_of ?t (primitive_name p) = Some ?a"
        by (simp add: map_of_update_table)
      with primitives_loop_table [OF l ok] have m1: "map_of t1 (primitive_name p) = Some ?a"
        by blast
      have a: "?a < length (option_lists ?s)" by simp
      have c: "option_lists ?s ! ?a = [default_options G iv]" by simp
      from primitives_loop_cells [OF l ok a] c
      have "option_lists s1 ! ?a = [default_options G iv]"
        by (simp split: if_splits)
      with m1 show ?thesis by blast
    next
      case False
      with Cons.prems(3,4) have "p \<in> set ps" "map_of ?t (primitive_name p) = None"
        by (auto simp add: map_of_update_table)
      with Cons.IH [OF l ok] show ?thesis by blast
    qed
  next
    case (Some a0)
    with Cons.prems(1) obtain g0 s0 where
      r: "reconcile G iv a0 (g, s) = Inr (g0, s0)" and
      l: "primitives_loop ps G iv (t, g0, s0) = Inr (t1, g1, s1)"
      by (cases "reconcile G iv a0 (g, s)") auto
    from reconcile_result(2) [OF r] have len: "length (option_lists s0) = length (option_lists s)"
      by simp
    with Cons.prems(2) have ok: "table_ok t s0" by (simp add: table_ok_def)
    from Some Cons.prems(3,4) have "p \<in> set ps" by auto
    with Cons.IH [OF l ok] Cons.prems(4) show ?thesis by blast
  qed
qed

lemma generate_unfold:
  assumes "init_primitive_options agg_prims trans_prims primitive_options (entityset_dict_of es)
             (initial_store giv) = Inr (t0, s0)"
    and "generate_all_primitive_options agg_prims trans_prims all_primitives primitive_options
           G giv es = Inr ((t, residual), s)"
  shows "primitives_loop all_primitives G 0 (t0, G, s0) = Inr (t, residual, s)"
  using assms
  by (auto simp add: generate_all_primitive_options_def split: sum.splits)

lemma init_primitive_options_table:
  assumes "init_primitive_options agg_prims trans_prims primitive_options esd
             (initial_store giv) = Inr (t0, s0)"
  shows "table_ok t0 s0" and "var_dicts s0 ! 0 = giv"
proof -
  have ok: "table_ok [] (initial_store giv)" by (simp add: table_ok_def)
  from assms have "init_primitive_loop agg_prims trans_prims primitive_options esd
      ([], initial_store giv) = Inr (t0, s0)"
    by (simp add: init_primitive_options_def)
  from init_primitive_loop_table [OF this ok]
  show "table_ok t0 s0" and "var_dicts s0 ! 0 = giv"
    by (auto simp add: initial_store_def)
qed

lemma add_ignore_entities_total:
  "\<forall>option \<in> set options. normal option \<Longrightarrow>
   \<exists>options1. add_ignore_entities extra options = Inr options1"
proof (induction options)
  case Nil
  then show ?case by simp
next
  case (Cons option options)
  then obtain ign rest where "ignore_entities option = Some ign"
    "add_ignore_entities extra options = Inr rest"
    by (auto simp add: normal_def)
  then show ?case by simp
qed

lemma normal_with_global_ignore:
  "\<forall>option \<in> set options. normal option \<Longrightarrow>
   \<forall>option \<in> set (with_global_ignore G options). normal option"
  by (auto simp add: with_global_ignore_def normal_def)

lemma reconcile_variables_total:
  assumes "normal option" and "entity \<in> set (map fst (var_dicts s ! iv))"
  shows "\<exists>s1. reconcile_variables entity ignore_vars included option s = Inr s1 \<and>
              map fst (var_dicts s1 ! iv) = map fst (var_dicts s ! iv)"
proof -
  from assms(1) obtain a where a: "ignore_variables option = Some a"
    by (auto simp add: normal_def)
  show ?thesis
  proof (cases "a = iv \<and> iv < length (var_dicts s)")
    case True
    from assms(2) obtain old where o: "map_of (var_dicts s ! iv) entity = Some old"
      by (metis map_of_eq_None_iff not_Some_eq set_map)
    from o True a assms(2) show ?thesis
      by (simp add: reconcile_variables_def Let_def update_keys)
  next
    case False
    then have "(var_dicts s)[a := d] ! iv = var_dicts s ! iv" for d
      by (cases "a = iv") (simp_all add: list_update_beyond)
    with a show ?thesis
      by (auto simp add: reconcile_variables_def Let_def split: option.splits)
  qed
qed

lemma options_loop_total:
  assumes "\<forall>option \<in> set options. normal option"
    and "entity \<in> set (map fst (var_dicts s ! iv))"
  shows "\<exists>s1. options_loop entity ignore_vars included options s = Inr s1 \<and>
              map fst (var_dicts s1 ! iv) = map fst (var_dicts s ! iv)"
  using assms
proof (induction options arbitrary: s)
  case Nil
  then show ?case by simp
next
  case (Cons option options)
  from Cons.prems have "normal option" by simp
  from reconcile_variables_total [OF this Cons.prems(2)]
  obtain s0 where a: "reconcile_variables entity ignore_vars included option s = Inr s0"
    and k: "map fst (var_dicts s0 ! iv) = map fst (var_dicts s ! iv)"
    by blast
  from Cons.prems k have "\<forall>option \<in> set options. normal option"
    "entity \<in> set (map fst (var_dicts s0 ! iv))"
    by simp_all
  from Cons.IH [OF this] obtain s1 where
    "options_loop entity ignore_vars included options s0 = Inr s1"
    "map fst (var_dicts s1 ! iv) = map fst (var_dicts s0 ! iv)"
    by blast
  with a k show ?case by simp
qed

lemma items_loop_total:
  assumes "\<forall>option \<in> set options. normal option"
    and "length (var_dicts s ! iv) = n" and "k \<le> n"
  shows "\<exists>s1. items_loop iv n k included options s = Inr s1"
  using assms(2,3)
proof (induction k arbitrary: s)
  case 0
  then show ?case by simp
next
  case (Suc k)
  let ?d = "var_dicts s ! iv"
  obtain entity ignore_vars where d: "?d ! (n - Suc k) = (entity, ignore_vars)"
    by (cases "?d ! (n - Suc k)")
  from Suc.prems have i: "n - Suc k < length ?d" by simp
  then have "fst (?d ! (n - Suc k)) \<in> set (map fst ?d)"
    by (metis length_map nth_map nth_mem)
  with d have "entity \<in> set (map fst ?d)" by simp
  from options_loop_total [OF assms(1) this]
  obtain s0 where a: "options_loop entity ignore_vars included options s = Inr s0"
    and keys: "map fst (var_dicts s0 ! iv) = map fst ?d"
    by blast
  from keys have "length (var_dicts s0 ! iv) = length ?d"
    by (metis length_map)
  with Suc.prems have "length (var_dicts s0 ! iv) = n" "k \<le> n" by simp_all
  from Suc.IH [OF this] obtain s1 where "items_loop iv n k included options s0 = Inr s1"
    by blast
  with a d Suc.prems(1) show ?case by (simp add: Let_def)
qed

lemma reconcile_total:
  assumes "normal_store s" and "a < length (option_lists s)"
  shows "\<exists>g1 s1. reconcile G iv a (g, s) = Inr (g1, s1) \<and> normal_store s1"
proof -
  let ?options = "option_lists s ! a"
  let ?included = "included_entities ?options"
  from assms(2) have "?options \<in> set (option_lists s)"
    by (rule nth_mem)
  with assms(1) have n: "\<forall>option \<in> set ?options. normal option"
    by (simp add: normal_store_def)
  from add_ignore_entities_total [OF n] obtain options1 where
    a: "add_ignore_entities (G - ?included) ?options = Inr options1"
    by blast
  from add_ignore_entities_result [OF a] have o: "options1 = with_global_ignore G ?options"
    by (simp add: with_global_ignore_def)
  with n have n1: "\<forall>option \<in> set options1. normal option"
    by (simp add: normal_with_global_ignore)
  let ?s0 = "s\<lparr>option_lists := (option_lists s)[a := options1]\<rparr>"
  from items_loop_total [OF n1, of ?s0 iv "length (var_dicts ?s0 ! iv)" "length (var_dicts ?s0 ! iv)" ?included]
  obtain s1 where b: "items_loop iv (length (var_dicts ?s0 ! iv)) (length (var_dicts ?s0 ! iv))
       ?included options1 ?s0 = Inr s1"
    by auto
  from a b have r: "reconcile G iv a (g, s) = Inr (g - ?included, s1)"
    by (simp add: reconcile_def Let_def)
  from items_loop_frame [OF b] have "option_lists s1 = (option_lists s)[a := options1]"
    by simp
  with assms(1) n1 have "normal_store s1"
    by (auto simp add: normal_store_def dest!: set_update_subset_insert [THEN subsetD])
  with r show ?thesis by blast
qed

lemma normal_default [simp]: "normal (default_options G iv)"
  by (simp add: normal_def default_options_def empty_option_dict_def)

lemma primitives_loop_total:
  assumes "normal_store s" and "table_ok t s"
  shows "\<exists>t1 g1 s1. primitives_loop ps G iv (t, g, s) = Inr (t1, g1, s1)"
  using assms
proof (induction ps arbitrary: t g s)
  case Nil
  then show ?case by simp
next
  case (Cons p ps)
  show ?case
  proof (cases "map_of t (primitive_name p)")
    case None
    let ?t = "AList.update (primitive_name p) (length (option_lists s)) t"
    let ?s = "s\<lparr>option_lists := option_lists s @ [[default_options G iv]]\<rparr>"
    have ok: "table_ok ?t ?s"
      using Cons.prems(2) by (auto simp add: table_ok_def map_of_update_table less_Suc_eq)
    have n: "normal_store ?s"
      using Cons.prems(1) by (auto simp add: normal_store_def)
    from Cons.IH [OF n ok, of g] None show ?thesis by simp
  next
    case (Some a)
    with Cons.prems(2) have "a < length (option_lists s)" by (auto simp add: table_ok_def)
    from reconcile_total [OF Cons.prems(1) this, of G iv g] obtain g0 s0 where
      r: "reconcile G iv a (g, s) = Inr (g0, s0)" and n: "normal_store s0"
      by blast
    from reconcile_result(2) [OF r] have "length (option_lists s0) = length (option_lists s)"
      by simp
    with Cons.prems(2) have ok: "table_ok t s0" by (simp add: table_ok_def)
    from Cons.IH [OF n ok, of g0] Some r show ?thesis by simp
  qed
qed

lemma init_option_dict_normal:
  "init_option_dict key d es = Inr r \<Longrightarrow> normal r"
  by (auto simp add: init_option_dict_def init_defaults_def normal_def Let_def
      split: sum.splits if_splits)

lemma collect_Inr:
  "collect rs = Inr xs \<Longrightarrow> rs = map Inr xs"
proof (induction rs arbitrary: xs)
  case Nil
  then show ?case by simp
next
  case (Cons r rs)
  then show ?case
    by (cases r; cases "collect rs") auto
qed

lemma init_options_normal:
  assumes "init_options agg_prims trans_prims k opts es = Inr ds"
  shows "\<forall>d \<in> set ds. normal d"
proof (cases opts)
  case (OptionDict d)
  with assms show ?thesis
    by (auto simp add: init_options_def init_option_dict_normal split: sum.splits)
next
  case (OptionList l)
  with assms have "collect (map (\<lambda>option. init_option_dict k option es) l) = Inr ds"
    by (auto simp add: init_options_def split: sum.splits if_splits)
  then have m: "map (\<lambda>option. init_option_dict k option es) l = map Inr ds"
    by (rule collect_Inr)
  show ?thesis
  proof
    fix d assume "d \<in> set ds"
    then have "Inr d \<in> set (map (\<lambda>option. init_option_dict k option es) l)"
      by (simp add: m)
    then obtain option where "init_option_dict k option es = Inr d" by auto
    then show "normal d" by (rule init_option_dict_normal)
  qed
qed

lemma alloc_option_dict_normal:
  "alloc_option_dict d s = (r, s1) \<Longrightarrow> normal d \<Longrightarrow> normal r"
  by (auto simp add: alloc_option_dict_def with_ignore_variables_def normal_def
      split: option.splits)

lemma alloc_option_dicts_normal:
  "alloc_option_dicts ds s = (rs, s1) \<Longrightarrow> \<forall>d \<in> set ds. normal d \<Longrightarrow> \<forall>r \<in> set rs. normal r"
proof (induction ds arbitrary: s rs)
  case Nil
  then show ?case by simp
next
  case (Cons d ds)
  obtain r s0 where a: "alloc_option_dict d s = (r, s0)" by (cases "alloc_option_dict d s")
  obtain rs0 s2 where b: "alloc_option_dicts ds s0 = (rs0, s2)" by (cases "alloc_option_dicts ds s0")
  from Cons.prems(1) a b have rs: "rs = r # rs0" and "s2 = s1" by simp_all
  with b have b1: "alloc_option_dicts ds s0 = (rs0, s1)" by simp
  from Cons.prems(2) have "normal d" "\<forall>d \<in> set ds. normal d" by simp_all
  with alloc_option_dict_normal [OF a] Cons.IH [OF b1] rs show ?case by simp
qed

lemma alloc_option_list_normal:
  assumes "alloc_option_list ds s = (a, s1)" and "normal_store s" and "\<forall>d \<in> set ds. normal d"
  shows "normal_store s1"
proof -
  obtain rs s0 where b: "alloc_option_dicts ds s = (rs, s0)" by (cases "alloc_option_dicts ds s")
  from assms(1) b have s1: "s1 = s0\<lparr>option_lists := option_lists s0 @ [rs]\<rparr>"
    by (simp add: alloc_option_list_def)
  from alloc_option_dicts_frame [OF b] have "option_lists s0 = option_lists s" by simp
  with s1 assms(2) alloc_option_dicts_normal [OF b assms(3)] show ?thesis
    by (auto simp add: normal_store_def)
qed

lemma init_primitive_loop_normal:
  assumes "init_primitive_loop agg_prims trans_prims entries es (t, s) = Inr (t1, s1)"
    and "normal_store s"
  shows "normal_store s1"
  using assms
proof (induction entries arbitrary: t s)
  case Nil
  then show ?case by simp
next
  case (Cons entry entries)
  obtain k opts where e: "entry = (k, opts)" by (cases entry)
  from Cons.prems(1) obtain ds where i: "init_options agg_prims trans_prims k opts es = Inr ds"
    by (cases "init_options agg_prims trans_prims k opts es") (simp_all add: e)
  obtain a s0 where al: "alloc_option_list ds s = (a, s0)" by (cases "alloc_option_list ds s")
  from Cons.prems(1) i al obtain t0 where as: "assign_options (key_names k) a t = Inr t0"
    and l: "init_primitive_loop agg_prims trans_prims entries es (t0, s0) = Inr (t1, s1)"
    by (cases "assign_options (key_names k) a t") (simp_all add: e)
  have "normal_store s0"
    using al Cons.prems(2) init_options_normal [OF i] by (rule alloc_option_list_normal)
  with l show ?case by (rule Cons.IH)
qed

lemma init_primitive_options_normal:
  assumes "init_primitive_options agg_prims trans_prims primitive_options esd
             (initial_store giv) = Inr (t0, s0)"
  shows "normal_store s0"
proof -
  have n: "normal_store (initial_store giv)"
    by (simp add: normal_store_def initial_store_def)
  from assms have "init_primitive_loop agg_prims trans_prims primitive_options esd
      ([], initial_store giv) = Inr (t0, s0)"
    by (simp add: init_primitive_options_def)
  then show ?thesis using n by (rule init_primitive_loop_normal)
qed

lemma generate_returns:
  assumes "init_primitive_options agg_prims trans_prims primitive_options (entityset_dict_of es)
             (initial_store giv) = Inr (t0, s0)"
  shows "\<exists>t residual s.
           generate_all_primitive_options agg_prims trans_prims all_primitives primitive_options
             G giv es = Inr ((t, residual), s)"
proof -
  from primitives_loop_total [OF init_primitive_options_normal [OF assms]
      init_primitive_options_table(1) [OF assms], of all_primitives G 0 G]
  obtain t g s where "primitives_loop all_primitives G 0 (t0, G, s0) = Inr (t, g, s)"
    by blast
  with assms show ?thesis
    by (simp add: generate_all_primitive_options_def)
qed

lemma reconciled_after_return:
  assumes "init_primitive_options agg_prims trans_prims primitive_options (entityset_dict_of es)
             (initial_store giv) = Inr (t0, s0)"
    and "generate_all_primitive_options agg_prims trans_prims all_primitives primitive_options
           G giv es = Inr ((t, residual), s)"
  shows "residual = G - explicitly_included t0 s0 all_primitives \<and>
         (\<forall>p \<in> set all_primitives. \<forall>a. map_of t0 (primitive_name p) = Some a \<longrightarrow>
            map_of t (primitive_name p) = Some a \<and>
            option_lists s ! a = with_global_ignore G (option_lists s0 ! a) \<and>
            (\<forall>X \<in> included_entities (option_lists s0 ! a).
               X \<notin> residual \<and>
               (\<forall>i < length (option_lists s0 ! a).
                  \<forall>ign. ignore_entities (option_lists s ! a ! i) = Some ign \<and> X \<in> ign \<longrightarrow>
                    (\<exists>own. ignore_entities (option_lists s0 ! a ! i) = Some own \<and> X \<in> own))))"
proof -
  note ok = init_primitive_options_table(1) [OF assms(1)]
  note loop = generate_unfold [OF assms]
  have res: "residual = G - explicitly_included t0 s0 all_primitives"
    using loop ok by (rule primitives_loop_residual)
  have per: "map_of t (primitive_name p) = Some a \<and>
            option_lists s ! a = with_global_ignore G (option_lists s0 ! a) \<and>
            (\<forall>X \<in> included_entities (option_lists s0 ! a).
               X \<notin> residual \<and>
               (\<forall>i < length (option_lists s0 ! a).
                  \<forall>ign. ignore_entities (option_lists s ! a ! i) = Some ign \<and> X \<in> ign \<longrightarrow>
                    (\<exists>own. ignore_entities (option_lists s0 ! a ! i) = Some own \<and> X \<in> own)))"
    if p: "p \<in> set all_primitives" and m: "map_of t0 (primitive_name p) = Some a" for p a
  proof -
    from ok m have a: "a < length (option_lists s0)" by (auto simp add: table_ok_def)
    from primitives_loop_table [OF loop ok] m have m1: "map_of t (primitive_name p) = Some a"
      by blast
    from primitives_loop_cells [OF loop ok a] p m
    have c: "option_lists s ! a = with_global_ignore G (option_lists s0 ! a)"
      by auto
    have x: "X \<notin> residual \<and>
               (\<forall>i < length (option_lists s0 ! a).
                  \<forall>ign. ignore_entities (option_lists s ! a ! i) = Some ign \<and> X \<in> ign \<longrightarrow>
                    (\<exists>own. ignore_entities (option_lists s0 ! a ! i) = Some own \<and> X \<in> own))"
      if X: "X \<in> included_entities (option_lists s0 ! a)" for X
    proof -
      from X p m have "X \<in> explicitly_included t0 s0 all_primitives"
        by (force simp add: explicitly_included_def)
      with res have r: "X \<notin> residual" by simp
      have "\<exists>own. ignore_entities (option_lists s0 ! a ! i) = Some own \<and> X \<in> own"
        if i: "i < length (option_lists s0 ! a)"
          and ign: "ignore_entities (option_lists s ! a ! i) = Some ign \<and> X \<in> ign" for i ign
      proof -
        from i have "ignore_entities (option_lists s ! a ! i) =
            map_option (\<lambda>ign. ign \<union> (G - included_entities (option_lists s0 ! a)))
              (ignore_entities (option_lists s0 ! a ! i))"
          by (simp add: c with_global_ignore_def)
        with ign X show ?thesis by auto
      qed
      with r show ?thesis by blast
    qed
    from m1 c x show ?thesis by blast
  qed
  from res per show ?thesis by blast
qed

text \<open>
  Claim C2 says that an entity \<open>X\<close> which a primitive includes is in none of that
  primitive's \<^verbatim>\<open>'ignore_entities'\<close> sets after reconciliation, and that the
  residual set is the global set less the included entities of every primitive with
  explicit records. The code unites each record's own set with the global one, and it
  reconciles only the primitives of \<^verbatim>\<open>all_primitives\<close>. As amended, when the
  raw options are valid, so that the table builder returns a table \<open>t0\<close> and a store
  \<open>s0\<close>: the call returns; the residual set is \<open>G\<close> less the included entities of
  the primitives of \<^verbatim>\<open>all_primitives\<close> that have explicit records; and for each
  such primitive
  the table still maps it to its list, each record's \<^verbatim>\<open>'ignore_entities'\<close> is
  its own set united with \<open>G\<close> less the primitive's included entities, and so an entity
  \<open>X\<close> that the primitive includes is absent from the residual set and is in a record's
  set afterwards only if that record's own options listed it.
\<close>

theorem reconciled_ignore_entities:
  assumes "init_primitive_options agg_prims trans_prims primitive_options (entityset_dict_of es)
             (initial_store giv) = Inr (t0, s0)"
  shows "\<exists>t residual s.
           generate_all_primitive_options agg_prims trans_prims all_primitives primitive_options
             G giv es = Inr ((t, residual), s) \<and>
           residual = G - explicitly_included t0 s0 all_primitives \<and>
           (\<forall>p \<in> set all_primitives. \<forall>a. map_of t0 (primitive_name p) = Some a \<longrightarrow>
              map_of t (primitive_name p) = Some a \<and>
              option_lists s ! a = with_global_ignore G (option_lists s0 ! a) \<and>
              (\<forall>X \<in> included_entities (option_lists s0 ! a).
                 X \<notin> residual \<and>
                 (\<forall>i < length (option_lists s0 ! a).
                    \<forall>ign. ignore_entities (option_lists s ! a ! i) = Some ign \<and> X \<in> ign \<longrightarrow>
                      (\<exists>own. ignore_entities (option_lists s0 ! a ! i) = Some own \<and> X \<in> own))))"
proof -
  from generate_returns [OF assms, where all_primitives = all_primitives and G = G]
  obtain t residual s where
    gen: "generate_all_primitive_options agg_prims trans_prims all_primitives primitive_options
             G giv es = Inr ((t, residual), s)"
    by (elim exE) (rule that)
  note r = reconciled_after_return [OF assms gen]
  show ?thesis
    by (intro exI conjI) (rule gen, rule r [THEN conjunct1], rule r [THEN conjunct2])
qed

lemmas normaliser_defs =
  init_option_dict_def get_primitive_options_def list_entity_check_def
  dict_to_list_variable_check_def store_option_def set_entity_option_def
  set_variable_option_def init_defaults_def empty_option_dict_def

lemmas builder_defs =
  init_primitive_options_def init_options_def slot_count_def lookup_primitive_def
  alloc_option_list_def alloc_option_dict_def with_ignore_variables_def key_names_def
  initial_store_def

lemmas reconciler_defs =
  reconcile_def reconcile_variables_def included_entities_def included_of_def
  default_options_def entityset_dict_of_def

lemma xz_init:
  "init_primitive_options example_registry no_registry xz_options (entityset_dict_of [])
     (initial_store [(''X'', {''w''}), (''e'', {''v''})]) =
   Inr ([(''sum'', 0), (''divide'', 0)],
        \<lparr>var_dicts = [[(''X'', {''w''}), (''e'', {''v''})], []],
         option_lists = [[xz_record {''Z''}]]\<rparr>)"
  by (simp add: xz_options_def xz_record_def normaliser_defs builder_defs)

lemma xz_generate:
  "generate_all_primitive_options example_registry no_registry
     [PrimitiveName ''sum'', PrimitiveObject ''mean''] xz_options {''X'', ''Y''}
     [(''X'', {''w''}), (''e'', {''v''})] [] =
   Inr (([(''sum'', 0), (''divide'', 0), (''mean'', 1)], {''Y''}),
        \<lparr>var_dicts = [[(''X'', {''w''}), (''e'', {''v''})], [(''e'', {''v''})]],
         option_lists = [[xz_record {''Y'', ''Z''}],
                         [default_options {''X'', ''Y''} 0]]\<rparr>)"
  by (simp add: generate_all_primitive_options_def xz_init [simplified entityset_dict_of_def, simplified]
      reconciler_defs xz_record_def empty_option_dict_def entityset_dict_of_def Let_def insert_Diff_if)


text \<open>
  C2 as amended, at a call with the global set \<open>{X, Y}\<close>, where
  \<^verbatim>\<open>sum\<close> includes \<open>X\<close> and ignores \<open>Z\<close>: its record ignores \<open>Y\<close> and \<open>Z\<close>
  afterwards, and the residual set is \<open>{Y}\<close>.
\<close>

theorem reconciled_ignore_entities_witness:
  "generate_all_primitive_options example_registry no_registry
     [PrimitiveName ''sum'', PrimitiveObject ''mean''] xz_options {''X'', ''Y''}
     [(''X'', {''w''}), (''e'', {''v''})] [] =
   Inr (([(''sum'', 0), (''divide'', 0), (''mean'', 1)], {''Y''}),
        \<lparr>var_dicts = [[(''X'', {''w''}), (''e'', {''v''})], [(''e'', {''v''})]],
         option_lists = [[xz_record {''Y'', ''Z''}],
                         [default_options {''X'', ''Y''} 0]]\<rparr>) \<and>
   {''Y''} = {''X'', ''Y''} -
     explicitly_included [(''sum'', 0), (''divide'', 0)]
       \<lparr>var_dicts = [[(''X'', {''w''}), (''e'', {''v''})], []],
        option_lists = [[xz_record {''Z''}]]\<rparr>
       [PrimitiveName ''sum'', PrimitiveObject ''mean''] \<and>
   [xz_record {''Y'', ''Z''}] = with_global_ignore {''X'', ''Y''} [xz_record {''Z''}]"
proof -
  from reconciled_ignore_entities [OF xz_init,
      where all_primitives = "[PrimitiveName ''sum'', PrimitiveObject ''mean'']"
        and G = "{''X'', ''Y''}"]
  obtain t residual s where
    gen: "generate_all_primitive_options example_registry no_registry
       [PrimitiveName ''sum'', PrimitiveObject ''mean''] xz_options {''X'', ''Y''}
       [(''X'', {''w''}), (''e'', {''v''})] [] = Inr ((t, residual), s)"
    and a: "residual = {''X'', ''Y''} -
       explicitly_included [(''sum'', 0), (''divide'', 0)]
         \<lparr>var_dicts = [[(''X'', {''w''}), (''e'', {''v''})], []],
          option_lists = [[xz_record {''Z''}]]\<rparr>
         [PrimitiveName ''sum'', PrimitiveObject ''mean'']"
    and r: "\<forall>p \<in> set [PrimitiveName ''sum'', PrimitiveObject ''mean''].
       \<forall>a. map_of [(''sum'', 0), (''divide'', 0)] (primitive_name p) = Some a \<longrightarrow>
         map_of t (primitive_name p) = Some a \<and>
         option_lists s ! a =
           with_global_ignore {''X'', ''Y''}
             (option_lists \<lparr>var_dicts = [[(''X'', {''w''}), (''e'', {''v''})], []],
                            option_lists = [[xz_record {''Z''}]]\<rparr> ! a) \<and>
         (\<forall>X \<in> included_entities
                  (option_lists \<lparr>var_dicts = [[(''X'', {''w''}), (''e'', {''v''})], []],
                                 option_lists = [[xz_record {''Z''}]]\<rparr> ! a).
            X \<notin> residual \<and>
            (\<forall>i < length (option_lists \<lparr>var_dicts = [[(''X'', {''w''}), (''e'', {''v''})], []],
                                        option_lists = [[xz_record {''Z''}]]\<rparr> ! a).
               \<forall>ign. ignore_entities (option_lists s ! a ! i) = Some ign \<and> X \<in> ign \<longrightarrow>
                 (\<exists>own. ignore_entities
                          (option_lists \<lparr>var_dicts = [[(''X'', {''w''}), (''e'', {''v''})], []],
                                         option_lists = [[xz_record {''Z''}]]\<rparr> ! a ! i) = Some own \<and>
                        X \<in> own)))"
    by (elim exE conjE) (rule that)
  from trans [OF gen [symmetric] xz_generate]
  have res: "residual = {''Y''}"
    and s: "s = \<lparr>var_dicts = [[(''X'', {''w''}), (''e'', {''v''})], [(''e'', {''v''})]],
                 option_lists = [[xz_record {''Y'', ''Z''}],
                                 [default_options {''X'', ''Y''} 0]]\<rparr>"
    by simp_all
  have p: "PrimitiveName ''sum'' \<in> set [PrimitiveName ''sum'', PrimitiveObject ''mean'']"
    by simp
  have m: "map_of [(''sum'', 0::nat), (''divide'', 0)] (primitive_name (PrimitiveName ''sum'')) = Some 0"
    by simp
  note c = mp [OF spec [OF bspec [OF r p], of 0] m]
  from c [THEN conjunct2, THEN conjunct1]
  have b: "[xz_record {''Y'', ''Z''}] = with_global_ignore {''X'', ''Y''} [xz_record {''Z''}]"
    by (simp add: s)
  show ?thesis
    by (intro conjI) (rule xz_generate, rule a [unfolded res], rule b)
qed

text \<open>
  C2 as stated fails twice. A record that both includes and ignores \<open>X\<close> still ignores
  \<open>X\<close> after reconciliation; and when the primitive that includes \<open>X\<close> is not in
  \<^verbatim>\<open>all_primitives\<close>, \<open>X\<close> stays in the residual set.
\<close>

theorem reconciled_ignore_entities_counterexample:
  "generate_all_primitive_options example_registry no_registry [PrimitiveName ''sum'']
     [(Name ''sum'', OptionDict [(''include_entities'', RawList [''X'']),
                                 (''ignore_entities'', RawList [''X''])])]
     {''X''} [] [] =
   Inr (([(''sum'', 0)], {}),
        \<lparr>var_dicts = [[], []],
         option_lists = [[empty_option_dict\<lparr>ignore_entities := Some {''X''},
                                            include_entities := Some {''X''},
                                            ignore_variables := Some 1\<rparr>]]\<rparr>) \<and>
   generate_all_primitive_options example_registry no_registry []
     [(Name ''sum'', OptionDict [(''include_entities'', RawList [''X''])])]
     {''X''} [] [] =
   Inr (([(''sum'', 0)], {''X''}),
        \<lparr>var_dicts = [[], []],
         option_lists = [[empty_option_dict\<lparr>ignore_entities := Some {},
                                            include_entities := Some {''X''},
                                            ignore_variables := Some 1\<rparr>]]\<rparr>)"
  by (simp add: generate_all_primitive_options_def normaliser_defs builder_defs reconciler_defs
      Let_def)

lemma inputs_after_return:
  assumes "init_primitive_options agg_prims trans_prims primitive_options (entityset_dict_of es)
             (initial_store giv) = Inr (t0, s0)"
    and "generate_all_primitive_options agg_prims trans_prims all_primitives primitive_options
           G giv es = Inr ((t, residual), s)"
    and "distinct (map fst giv)"
  shows "var_dicts s ! 0 = giv \<and>
         generate_all_primitive_options agg_prims trans_prims all_primitives primitive_options
           G (var_dicts s ! 0) es = Inr ((t, residual), s) \<and>
         (\<forall>p \<in> set all_primitives. map_of t0 (primitive_name p) = None \<longrightarrow>
            (\<exists>a. map_of t (primitive_name p) = Some a \<and>
                 option_lists s ! a = [default_options G 0]))"
proof -
  note ok = init_primitive_options_table [OF assms(1)]
  note loop = generate_unfold [OF assms(1,2)]
  have same: "var_dicts s ! 0 = giv"
    using loop ok(2) assms(3) by (rule primitives_loop_caller)
  have again: "generate_all_primitive_options agg_prims trans_prims all_primitives primitive_options
           G (var_dicts s ! 0) es = Inr ((t, residual), s)"
    using assms(2) by (simp only: same)
  have default: "\<exists>a. map_of t (primitive_name p) = Some a \<and>
                 option_lists s ! a = [default_options G 0]"
    if "p \<in> set all_primitives" "map_of t0 (primitive_name p) = None" for p
    using loop ok(1) that by (rule primitives_loop_default)
  from same again default show ?thesis by blast
qed

text \<open>
  Claim C4 says that the reconciler is pure, mutates neither global input and copies
  the global rules into each default record. The default record is built from the
  caller's \<^verbatim>\<open>ignore_variables\<close> dict itself. As amended, when the raw options
  are valid and for a caller's \<^verbatim>\<open>ignore_variables\<close> dict \<open>giv\<close> (a dict has
  distinct keys): the call returns; the dict object of the caller, at address 0, holds
  after the call the items it held before; hence the same call on the inputs as the
  first call left them returns the same result; and for every primitive of
  \<^verbatim>\<open>all_primitives\<close> without explicit records the table holds one record, whose
  \<^verbatim>\<open>'ignore_variables'\<close> is the reference to the caller's dict (the address
  0), not a copy, and whose \<^verbatim>\<open>'ignore_entities'\<close> is a set equal to the
  caller's. Sets are values in this development: the statement is about the value of a
  set and not about which set object a record holds.
\<close>

theorem generate_leaves_inputs_unchanged:
  assumes "init_primitive_options agg_prims trans_prims primitive_options (entityset_dict_of es)
             (initial_store giv) = Inr (t0, s0)"
    and "distinct (map fst giv)"
  shows "\<exists>t residual s.
           generate_all_primitive_options agg_prims trans_prims all_primitives primitive_options
             G giv es = Inr ((t, residual), s) \<and>
           var_dicts s ! 0 = giv \<and>
           generate_all_primitive_options agg_prims trans_prims all_primitives primitive_options
             G (var_dicts s ! 0) es = Inr ((t, residual), s) \<and>
           (\<forall>p \<in> set all_primitives. map_of t0 (primitive_name p) = None \<longrightarrow>
              (\<exists>a. map_of t (primitive_name p) = Some a \<and>
                   option_lists s ! a = [default_options G 0]))"
proof -
  from generate_returns [OF assms(1), where all_primitives = all_primitives and G = G]
  obtain t residual s where
    gen: "generate_all_primitive_options agg_prims trans_prims all_primitives primitive_options
             G giv es = Inr ((t, residual), s)"
    by (elim exE) (rule that)
  note r = inputs_after_return [OF assms(1) gen assms(2)]
  show ?thesis
    by (intro exI conjI)
       (rule gen, rule r [THEN conjunct1], rule r [THEN conjunct2, THEN conjunct1],
        rule r [THEN conjunct2, THEN conjunct2])
qed

text \<open>
  C4 as amended, at the call above: the caller's dict is unchanged although the record
  of \<^verbatim>\<open>sum\<close> received an item of it, and \<^verbatim>\<open>mean\<close> has the default
  record.
\<close>

theorem generate_leaves_inputs_unchanged_witness:
  "var_dicts \<lparr>var_dicts = [[(''X'', {''w''}), (''e'', {''v''})], [(''e'', {''v''})]],
              option_lists = [[xz_record {''Y'', ''Z''}],
                              [default_options {''X'', ''Y''} 0]]\<rparr> ! 0 =
     [(''X'', {''w''}), (''e'', {''v''})] \<and>
   (\<exists>a. map_of [(''sum'', 0), (''divide'', 0), (''mean'', 1)] ''mean'' = Some a \<and>
        option_lists \<lparr>var_dicts = [[(''X'', {''w''}), (''e'', {''v''})], [(''e'', {''v''})]],
                      option_lists = [[xz_record {''Y'', ''Z''}],
                                      [default_options {''X'', ''Y''} 0]]\<rparr> ! a =
          [default_options {''X'', ''Y''} 0])"
proof -
  have d: "distinct (map fst [(''X'', {''w''}), (''e'', {''v''::string})])"
    by simp
  from generate_leaves_inputs_unchanged [OF xz_init d,
      where all_primitives = "[PrimitiveName ''sum'', PrimitiveObject ''mean'']"
        and G = "{''X'', ''Y''}"]
  obtain t residual s where
    gen: "generate_all_primitive_options example_registry no_registry
       [PrimitiveName ''sum'', PrimitiveObject ''mean''] xz_options {''X'', ''Y''}
       [(''X'', {''w''}), (''e'', {''v''})] [] = Inr ((t, residual), s)"
    and a: "var_dicts s ! 0 = [(''X'', {''w''}), (''e'', {''v''})]"
    and again: "generate_all_primitive_options example_registry no_registry
       [PrimitiveName ''sum'', PrimitiveObject ''mean''] xz_options {''X'', ''Y''}
       (var_dicts s ! 0) [] = Inr ((t, residual), s)"
    and r: "\<forall>p \<in> set [PrimitiveName ''sum'', PrimitiveObject ''mean''].
       map_of [(''sum'', 0::nat), (''divide'', 0)] (primitive_name p) = None \<longrightarrow>
         (\<exists>a. map_of t (primitive_name p) = Some a \<and>
              option_lists s ! a = [default_options {''X'', ''Y''} 0])"
    by (elim exE conjE) (rule that)
  from trans [OF gen [symmetric] xz_generate]
  have t: "t = [(''sum'', 0), (''divide'', 0), (''mean'', 1)]"
    and s: "s = \<lparr>var_dicts = [[(''X'', {''w''}), (''e'', {''v''})], [(''e'', {''v''})]],
                 option_lists = [[xz_record {''Y'', ''Z''}],
                                 [default_options {''X'', ''Y''} 0]]\<rparr>"
    by simp_all
  have p: "PrimitiveObject ''mean'' \<in> set [PrimitiveName ''sum'', PrimitiveObject ''mean'']"
    by simp
  have m: "map_of [(''sum'', 0::nat), (''divide'', 0)] (primitive_name (PrimitiveObject ''mean'')) = None"
    by simp
  note c = mp [OF bspec [OF r p] m]
  from c have b: "\<exists>a. map_of [(''sum'', 0), (''divide'', 0), (''mean'', 1)] ''mean'' = Some a \<and>
        option_lists \<lparr>var_dicts = [[(''X'', {''w''}), (''e'', {''v''})], [(''e'', {''v''})]],
                      option_lists = [[xz_record {''Y'', ''Z''}],
                                      [default_options {''X'', ''Y''} 0]]\<rparr> ! a =
          [default_options {''X'', ''Y''} 0]"
    by (simp add: s t)
  show ?thesis
    by (intro conjI) (rule a [unfolded s], rule b)
qed

text \<open>
  C4 as stated fails at a call with one primitive and no options: the store holds a
  single dict object afterwards, the caller's, and the default record refers to it by
  its address 0. The dict was not copied.
\<close>

theorem generate_leaves_inputs_unchanged_counterexample:
  "generate_all_primitive_options example_registry no_registry [PrimitiveName ''sum''] []
     {''X''} [(''e'', {''v''})] [] =
   Inr (([(''sum'', 0)], {''X''}),
        \<lparr>var_dicts = [[(''e'', {''v''})]],
         option_lists = [[empty_option_dict\<lparr>ignore_entities := Some {''X''},
                                            ignore_variables := Some 0\<rparr>]]\<rparr>)"
  by (simp add: generate_all_primitive_options_def normaliser_defs builder_defs reconciler_defs
      Let_def)

section \<open>The reconciler and the filter together\<close>

text \<open>
  The running example from end to end: \<^verbatim>\<open>sum\<close> ignores
  \<^verbatim>\<open>transactions.amount\<close> and there are no global rules. The resolved record of
  \<^verbatim>\<open>sum\<close>, read from the store, carries that rule, and the filter drops the
  match on \<^verbatim>\<open>amount\<close> and keeps the one on \<^verbatim>\<open>customer_id\<close>.
\<close>

lemma end_to_end_example:
  "generate_all_primitive_options example_registry no_registry [PrimitiveName ''sum'']
     [(Name ''sum'',
       OptionDict [(''ignore_variables'', RawDict [(''transactions'', RawList [''amount''])])])]
     {} []
     [Entity ''customers'' [''id'', ''age''],
      Entity ''transactions'' [''id'', ''customer_id'', ''amount'']] =
   Inr (([(''sum'', 0)], {}),
        \<lparr>var_dicts = [[], [(''transactions'', {''amount''})]],
         option_lists = [[empty_option_dict\<lparr>ignore_entities := Some {},
                                            ignore_variables := Some 1\<rparr>]]\<rparr>)"
  "read_options
     \<lparr>var_dicts = [[], [(''transactions'', {''amount''})]],
      option_lists = [[empty_option_dict\<lparr>ignore_entities := Some {},
                                         ignore_variables := Some 1\<rparr>]]\<rparr>
     [(''sum'', 0)] ''sum'' = Some [ignore_amount_options]"
  "filter_matches_by_options
     [[IdentityFeature ''transactions'' ''amount''],
      [IdentityFeature ''transactions'' ''customer_id'']]
     [ignore_amount_options] False =
   Inr {[IdentityFeature ''transactions'' ''customer_id'']}"
proof -
  show "generate_all_primitive_options example_registry no_registry [PrimitiveName ''sum'']
     [(Name ''sum'',
       OptionDict [(''ignore_variables'', RawDict [(''transactions'', RawList [''amount''])])])]
     {} []
     [Entity ''customers'' [''id'', ''age''],
      Entity ''transactions'' [''id'', ''customer_id'', ''amount'']] =
   Inr (([(''sum'', 0)], {}),
        \<lparr>var_dicts = [[], [(''transactions'', {''amount''})]],
         option_lists = [[empty_option_dict\<lparr>ignore_entities := Some {},
                                            ignore_variables := Some 1\<rparr>]]\<rparr>)"
    by (simp add: generate_all_primitive_options_def normaliser_defs builder_defs
        reconciler_defs Let_def)
  show "read_options
     \<lparr>var_dicts = [[], [(''transactions'', {''amount''})]],
      option_lists = [[empty_option_dict\<lparr>ignore_entities := Some {},
                                         ignore_variables := Some 1\<rparr>]]\<rparr>
     [(''sum'', 0)] ''sum'' = Some [ignore_amount_options]"
    by (simp add: read_options_def read_option_dict_def with_ignore_variables_def example_defs)
  show "filter_matches_by_options
     [[IdentityFeature ''transactions'' ''amount''],
      [IdentityFeature ''transactions'' ''customer_id'']]
     [ignore_amount_options] False =
   Inr {[IdentityFeature ''transactions'' ''customer_id'']}"
    by (simp add: filter_matches_by_options_def is_valid_match_def generator_def py_all_def
        variable_filter_generator_def passes_ignore_filter_def has_key_def lists_variable_def
        example_defs)
qed

end
